theory Spec2Isabelle
  imports Main "HOL-Library.AList" "HOL-Library.Monad_Syntax"
begin

section \<open>JavaScript values\<close>

text \<open>
  The validators of json-pointer.validator.ts and json-patch.validator.ts work on parsed
  JSON: a schema, a patch and every operation are plain JavaScript values. They are
  modelled by one datatype. An object is the list of its own properties in enumeration
  order, each name once; \<open>JUndefined\<close> is the value of a missing property and of a
  property the code sets to \<open>undefined\<close> (as in \<open>{...schema, allOf: undefined}\<close>).

  Scope of the model:
  \<^item> numbers are integers (every number the code reads is a count or an index), exact
    for the integers a double represents exactly (below \<open>2^53\<close>), which JavaScript
    also prints digit by digit;
  \<^item> strings are lists of characters; \<open>length\<close> counts characters;
  \<^item> property lookup consults own properties only: names inherited from a built-in
    prototype (\<open>constructor\<close>, \<open>toString\<close>, \<open>__proto__\<close>, ...) are outside the model;
  \<^item> a new property goes to the end of an object; JavaScript enumerates names that are
    array indices first, which matters only to the order in which patterns with such
    names are tried;
  \<^item> schemas are expected to conform to the TypeScript type \<open>JSONSchema\<close>. Operations
    and patches are checked by the code at run time and may be any value. Where the
    code would convert or throw on a schema value of another type than the declared one,
    the accessor concerned says what the model returns.
\<close>

datatype jsval =
    JUndefined
  | JNull
  | JBool bool
  | JNum int
  | JStr string
  | JArr "jsval list"
  | JObj "(string \<times> jsval) list"

text \<open>ToBoolean: what \<open>if (v)\<close>, \<open>!v\<close>, \<open>a || b\<close> and \<open>a && b\<close> test.\<close>

fun truthy :: "jsval \<Rightarrow> bool" where
  "truthy JUndefined = False"
| "truthy JNull = False"
| "truthy (JBool b) = b"
| "truthy (JNum n) = (n \<noteq> 0)"
| "truthy (JStr s) = (s \<noteq> [])"
| "truthy (JArr xs) = True"
| "truthy (JObj kvs) = True"

text \<open>\<open>typeof v === "object"\<close>: objects, arrays and \<open>null\<close>.\<close>

fun typeof_object :: "jsval \<Rightarrow> bool" where
  "typeof_object JNull = True"
| "typeof_object (JArr xs) = True"
| "typeof_object (JObj kvs) = True"
| "typeof_object v = False"

fun isArray :: "jsval \<Rightarrow> bool" where
  "isArray (JArr xs) = True"
| "isArray v = False"

subsection \<open>Strings\<close>

definition quoted :: "string \<Rightarrow> string" where
  "quoted s = CHR 0x22 # s @ [CHR 0x22]"

definition startsWith :: "string \<Rightarrow> string \<Rightarrow> bool" where
  "startsWith s p = (take (length p) s = p)"

text \<open>\<open>s.includes(p)\<close>: \<open>p\<close> occurs in \<open>s\<close> as a substring.\<close>

fun includes_str :: "string \<Rightarrow> string \<Rightarrow> bool" where
  "includes_str [] p = (p = [])"
| "includes_str (c # s) p = (startsWith (c # s) p \<or> includes_str s p)"

text \<open>\<open>s.split("/")\<close> for a one-character separator: never empty, \<open>"".split("/") = [""]\<close>.\<close>

fun split_on :: "char \<Rightarrow> string \<Rightarrow> string list" where
  "split_on c [] = [[]]"
| "split_on c (x # s) =
     (if x = c then [] # split_on c s
      else (case split_on c s of [] \<Rightarrow> [[x]] | h # t \<Rightarrow> (x # h) # t))"

text \<open>\<open>s.replace(/ab/g, r)\<close> for a two-character literal pattern, scanning left to right.\<close>

fun replace_pair :: "char \<Rightarrow> char \<Rightarrow> string \<Rightarrow> string \<Rightarrow> string" where
  "replace_pair a b r (x # y # s) =
     (if x = a \<and> y = b then r @ replace_pair a b r s
      else x # replace_pair a b r (y # s))"
| "replace_pair a b r s = s"

text \<open>\<open>token.replace(/~1/g, "/").replace(/~0/g, "~")\<close>\<close>

definition unescape :: "string \<Rightarrow> string" where
  "unescape t = replace_pair (CHR ''~'') (CHR ''0'') ''~''
                  (replace_pair (CHR ''~'') (CHR ''1'') ''/'' t)"

text \<open>\<open>s.lastIndexOf(c)\<close>, \<open>-1\<close> when \<open>c\<close> does not occur.\<close>

fun lastIndexOf :: "string \<Rightarrow> char \<Rightarrow> int" where
  "lastIndexOf [] c = -1"
| "lastIndexOf (x # s) c =
     (let r = lastIndexOf s c in
      if 0 \<le> r then r + 1 else if x = c then 0 else -1)"

text \<open>\<open>s.slice(a, b)\<close> and \<open>s.slice(a)\<close>: a negative position counts from the end.\<close>

definition slice_pos :: "string \<Rightarrow> int \<Rightarrow> nat" where
  "slice_pos s i =
     (if i < 0 then nat (max (int (length s) + i) 0) else min (nat i) (length s))"

definition slice :: "string \<Rightarrow> int \<Rightarrow> int \<Rightarrow> string" where
  "slice s a b = take (slice_pos s b - slice_pos s a) (drop (slice_pos s a) s)"

definition slice_from :: "string \<Rightarrow> int \<Rightarrow> string" where
  "slice_from s a = drop (slice_pos s a) s"

subsection \<open>Numbers and their decimal strings\<close>

definition is_digit :: "char \<Rightarrow> bool" where
  "is_digit c = (c \<in> set ''0123456789'')"

definition is_space :: "char \<Rightarrow> bool" where
  "is_space c = (c \<in> {CHR '' '', CHR 0x09, CHR 0x0A, CHR 0x0B, CHR 0x0C, CHR 0x0D})"

definition digit_val :: "char \<Rightarrow> nat" where
  "digit_val c = of_char c - 48"

definition digit_char :: "nat \<Rightarrow> char" where
  "digit_char d = ''0123456789'' ! d"

definition parse_digits :: "string \<Rightarrow> nat" where
  "parse_digits ds = foldl (\<lambda>a c. 10 * a + digit_val c) 0 ds"

text \<open>
  \<open>parseInt(s, 10)\<close>: leading white space and a sign are skipped, then the longest run of
  digits is read; \<open>None\<close> is \<open>NaN\<close>.
\<close>

definition parseInt :: "string \<Rightarrow> int option" where
  "parseInt s =
     (let t = dropWhile is_space s;
          neg = (t \<noteq> [] \<and> hd t = CHR ''-'');
          u = (if t \<noteq> [] \<and> (hd t = CHR ''-'' \<or> hd t = CHR ''+'') then tl t else t);
          ds = takeWhile is_digit u
      in if ds = [] then None
         else Some (if neg then - int (parse_digits ds) else int (parse_digits ds)))"

function digits :: "nat \<Rightarrow> string" where
  "digits n = (if n < 10 then [digit_char n] else digits (n div 10) @ [digit_char (n mod 10)])"
  by pat_completeness auto
termination
  by (relation "measure (\<lambda>n. n)") auto

declare digits.simps [simp del]

text \<open>\<open>n.toString()\<close> for an integer.\<close>

definition toString :: "int \<Rightarrow> string" where
  "toString i = (if i < 0 then CHR ''-'' # digits (nat (- i)) else digits (nat i))"

text \<open>A canonical array index: the property names an array answers to by position.\<close>

definition array_index :: "string \<Rightarrow> nat option" where
  "array_index k =
     (case parseInt k of
        None \<Rightarrow> None
      | Some i \<Rightarrow> if 0 \<le> i \<and> toString i = k then Some (nat i) else None)"

subsection \<open>Properties\<close>

text \<open>
  \<open>v[k]\<close> and \<open>v.k\<close>: an object answers with its own property, an array and a string with
  an element or their length, everything else with \<open>undefined\<close> (on \<open>null\<close> and
  \<open>undefined\<close> JavaScript throws unless the access is \<open>?.\<close>; the code reads properties
  of schema objects only).
\<close>

fun get :: "jsval \<Rightarrow> string \<Rightarrow> jsval" where
  "get (JObj kvs) k = (case map_of kvs k of None \<Rightarrow> JUndefined | Some v \<Rightarrow> v)"
| "get (JArr xs) k =
     (case array_index k of
        Some i \<Rightarrow> if i < length xs then xs ! i else JUndefined
      | None \<Rightarrow> if k = ''length'' then JNum (int (length xs)) else JUndefined)"
| "get (JStr s) k =
     (case array_index k of
        Some i \<Rightarrow> if i < length s then JStr [s ! i] else JUndefined
      | None \<Rightarrow> if k = ''length'' then JNum (int (length s)) else JUndefined)"
| "get v k = JUndefined"

text \<open>
  \<open>k in v\<close> for an object or an array \<open>v\<close>; on a primitive JavaScript throws, the model
  answers \<open>False\<close>.
\<close>

fun has_key :: "string \<Rightarrow> jsval \<Rightarrow> bool" where
  "has_key k (JObj kvs) = (map_of kvs k \<noteq> None)"
| "has_key k (JArr xs) =
     (case array_index k of Some i \<Rightarrow> i < length xs | None \<Rightarrow> k = ''length'')"
| "has_key k v = False"

text \<open>
  The own enumerable properties of a value, in the order \<open>for (k in v)\<close> and \<open>{...v}\<close>
  visit them.
\<close>

fun entries :: "jsval \<Rightarrow> (string \<times> jsval) list" where
  "entries (JObj kvs) = kvs"
| "entries (JArr xs) = map (\<lambda>i. (toString (int i), xs ! i)) [0..<length xs]"
| "entries (JStr s) = map (\<lambda>i. (toString (int i), JStr [s ! i])) [0..<length s]"
| "entries v = []"

text \<open>
  \<open>{...a, ...b}\<close>: the properties of \<open>b\<close> are written over those of \<open>a\<close>, a new name
  goes to the end.
\<close>

definition spread :: "(string \<times> jsval) list \<Rightarrow> jsval \<Rightarrow> (string \<times> jsval) list" where
  "spread kvs v = foldl (\<lambda>acc (k, x). AList.update k x acc) kvs (entries v)"

text \<open>\<open>{...a}\<close>, \<open>{...a, ...b}\<close> and the assignment \<open>a.k = x\<close> as values.\<close>

definition spread1 :: "jsval \<Rightarrow> jsval" where
  "spread1 a = JObj (spread [] a)"

definition spread2 :: "jsval \<Rightarrow> jsval \<Rightarrow> jsval" where
  "spread2 a b = JObj (spread (spread [] a) b)"

fun set_prop :: "jsval \<Rightarrow> string \<Rightarrow> jsval \<Rightarrow> jsval" where
  "set_prop (JObj kvs) k x = JObj (AList.update k x kvs)"
| "set_prop v k x = v"

text \<open>
  The elements \<open>[...v]\<close> spreads: of an array, or the characters of a string; another
  value is not iterable and would throw, the model reads no element.
\<close>

fun elems :: "jsval \<Rightarrow> jsval list" where
  "elems (JArr xs) = xs"
| "elems (JStr s) = map (\<lambda>c. JStr [c]) s"
| "elems v = []"

text \<open>\<open>[...new Set(xs)]\<close>: the first occurrence of each element, in order.\<close>

fun dedup :: "jsval list \<Rightarrow> jsval list \<Rightarrow> jsval list" where
  "dedup seen [] = []"
| "dedup seen (x # xs) = (if x \<in> set seen then dedup seen xs else x # dedup (x # seen) xs)"

text \<open>\<open>String(v)\<close>, as a template literal converts a value.\<close>

fun js_string :: "jsval \<Rightarrow> string" and js_join :: "jsval list \<Rightarrow> string" where
  "js_string JUndefined = ''undefined''"
| "js_string JNull = ''null''"
| "js_string (JBool b) = (if b then ''true'' else ''false'')"
| "js_string (JNum n) = toString n"
| "js_string (JStr s) = s"
| "js_string (JArr xs) = js_join xs"
| "js_string (JObj kvs) = ''[object Object]''"
| "js_join [] = []"
| "js_join (x # xs) =
     (if x = JUndefined \<or> x = JNull then [] else js_string x) @
     (if xs = [] then [] else CHR '','' # js_join xs)"


text \<open>
  A number compared with the value of a numeric keyword, a number by its type; on
  another value JavaScript converts it first, the model answers \<open>False\<close>.
\<close>

fun num_lt :: "int \<Rightarrow> jsval \<Rightarrow> bool" where
  "num_lt a (JNum m) = (a < m)"
| "num_lt a v = False"

fun num_gt :: "int \<Rightarrow> jsval \<Rightarrow> bool" where
  "num_gt a (JNum m) = (a > m)"
| "num_gt a v = False"

fun num_ge :: "int \<Rightarrow> jsval \<Rightarrow> bool" where
  "num_ge a (JNum m) = (a \<ge> m)"
| "num_ge a v = False"

text \<open>
  The string a keyword of type string holds (\<open>$ref\<close>, \<open>$dynamicRef\<close>, the \<open>path\<close> of an
  operation once it is known to be a string); on another truthy value \<open>startsWith\<close>
  would throw, the model reads the empty string.
\<close>

fun str_of :: "jsval \<Rightarrow> string" where
  "str_of (JStr s) = s"
| "str_of v = []"

text \<open>
  The elements of a keyword of an array type, for \<open>reduce\<close>, \<open>includes\<close> and \<open>for ... of\<close>;
  on another truthy value these would throw, the model reads no element.
\<close>

fun arr_items :: "jsval \<Rightarrow> jsval list" where
  "arr_items (JArr xs) = xs"
| "arr_items v = []"

text \<open>
  \<open>new RegExp(pattern).test(token)\<close> is a parameter of the model: \<open>None\<close> when the
  constructor throws on the pattern.
\<close>

type_synonym regex = "string \<Rightarrow> string \<Rightarrow> bool option"

section \<open>json-pointer.validator.ts\<close>

record SchemaContext =
  root :: jsval
  definitions :: jsval
  visited :: "string set"
  anchors :: "(string \<times> jsval) list"

text \<open>\<open>context.anchors.set(name, schema)\<close>; only a string is ever looked up again.\<close>

fun anchors_set :: "SchemaContext \<Rightarrow> jsval \<Rightarrow> jsval \<Rightarrow> SchemaContext" where
  "anchors_set ctx (JStr name) schema = ctx\<lparr>anchors := AList.update name schema (anchors ctx)\<rparr>"
| "anchors_set ctx v schema = ctx"

lemma size_map_of: "map_of kvs k = Some v \<Longrightarrow> size v < Suc (size_list (size_prod (\<lambda>_. 0) size) kvs)"
  by (induction kvs) (auto split: if_splits)

lemma size_nth: "i < length xs \<Longrightarrow> size (xs ! i) < Suc (size_list size xs)"
  using size_list_estimation' [of "xs ! i" xs "size (xs ! i)" size] by simp

lemma size_get_le: "size (get v k) \<le> size v"
proof (cases v)
  case (JArr xs)
  then show ?thesis
    using size_nth [of _ xs] by (auto split: option.splits simp: less_imp_le)
next
  case (JObj kvs)
  then show ?thesis
    using size_map_of [of kvs k] by (auto split: option.splits simp: less_imp_le)
next
  case (JStr s)
  then show ?thesis by (auto split: option.splits)
qed auto

lemma size_get_less: "typeof_object v \<Longrightarrow> truthy v \<Longrightarrow> size (get v k) < size v"
proof (cases v)
  case (JArr xs)
  then show ?thesis
    using size_nth [of _ xs] by (auto split: option.splits)
next
  case (JObj kvs)
  then show ?thesis
    using size_map_of [of kvs k] by (auto split: option.splits)
qed auto

text \<open>
  The pre-pass that records every \<open>$anchor\<close> and \<open>$dynamicAnchor\<close> found under
  \<open>properties\<close> and \<open>$defs\<close>. The source's third argument \<open>path\<close> is only passed
  along and is left out.
\<close>

function collectAnchors :: "jsval \<Rightarrow> SchemaContext \<Rightarrow> SchemaContext" where
  "collectAnchors schema ctx =
     (if \<not> truthy schema \<or> \<not> typeof_object schema then ctx
      else
        let c1 = (if truthy (get schema ''$anchor'')
                  then anchors_set ctx (get schema ''$anchor'') schema else ctx);
            c2 = (if truthy (get schema ''$dynamicAnchor'')
                  then anchors_set c1 (get schema ''$dynamicAnchor'') schema else c1);
            c3 = (if truthy (get schema ''properties'')
                  then fold (\<lambda>key c. collectAnchors (get (get schema ''properties'') key) c)
                         (map fst (entries (get schema ''properties''))) c2
                  else c2)
        in if truthy (get schema ''$defs'')
           then fold (\<lambda>key c. collectAnchors (get (get schema ''$defs'') key) c)
                  (map fst (entries (get schema ''$defs''))) c3
           else c3)"
  by pat_completeness auto
termination
proof (relation "measure (\<lambda>(schema, ctx). size schema)")
  show "wf (measure (\<lambda>(schema, ctx). size schema))" by simp
next
  fix schema :: jsval and ctx x xa :: SchemaContext and xb :: string and xc :: SchemaContext
  assume "\<not> (\<not> truthy schema \<or> \<not> typeof_object schema)"
  then have "size (get schema ''properties'') < size schema"
    by (simp add: size_get_less)
  moreover have "size (get (get schema ''properties'') xb) \<le> size (get schema ''properties'')"
    by (rule size_get_le)
  ultimately show "((get (get schema ''properties'') xb, xc), schema, ctx)
       \<in> measure (\<lambda>(schema, ctx). size schema)"
    by simp
next
  fix schema :: jsval and ctx x xa xb :: SchemaContext and xc :: string and xd :: SchemaContext
  assume "\<not> (\<not> truthy schema \<or> \<not> typeof_object schema)"
  then have "size (get schema ''$defs'') < size schema"
    by (simp add: size_get_less)
  moreover have "size (get (get schema ''$defs'') xc) \<le> size (get schema ''$defs'')"
    by (rule size_get_le)
  ultimately show "((get (get schema ''$defs'') xc, xd), schema, ctx)
       \<in> measure (\<lambda>(schema, ctx). size schema)"
    by simp
qed

declare collectAnchors.simps [simp del]

subsection \<open>Schema merge\<close>

text \<open>\<open>x || 0\<close> and \<open>x ?? Infinity\<close> for a numeric keyword; \<open>None\<close> is \<open>Infinity\<close>.\<close>

fun num_or_zero :: "jsval \<Rightarrow> int" where
  "num_or_zero (JNum n) = n"
| "num_or_zero v = 0"

fun num_or_infinity :: "jsval \<Rightarrow> int option" where
  "num_or_infinity (JNum n) = Some n"
| "num_or_infinity v = None"

fun min_ext :: "int option \<Rightarrow> int option \<Rightarrow> int option" where
  "min_ext None b = b"
| "min_ext a None = a"
| "min_ext (Some a) (Some b) = Some (min a b)"

definition type_list :: "jsval \<Rightarrow> jsval list" where
  "type_list t = (if isArray t then arr_items t else [t])"

definition mergeSchemas :: "jsval \<Rightarrow> jsval \<Rightarrow> jsval" where
  "mergeSchemas s1 s2 =
     (let merged = spread2 s1 s2;
          merged = (if truthy (get s1 ''properties'') \<or> truthy (get s2 ''properties'')
                    then set_prop merged ''properties''
                           (spread2 (get s1 ''properties'') (get s2 ''properties''))
                    else merged);
          merged = (if truthy (get s1 ''patternProperties'') \<or> truthy (get s2 ''patternProperties'')
                    then set_prop merged ''patternProperties''
                           (spread2 (get s1 ''patternProperties'') (get s2 ''patternProperties''))
                    else merged);
          merged = (if truthy (get s1 ''required'') \<or> truthy (get s2 ''required'')
                    then set_prop merged ''required''
                           (JArr (dedup []
                              (elems (if truthy (get s1 ''required'') then get s1 ''required'' else JArr []) @
                               elems (if truthy (get s2 ''required'') then get s2 ''required'' else JArr []))))
                    else merged);
          merged = (if truthy (get s1 ''type'') \<and> truthy (get s2 ''type'')
                    then
                      let t1 = type_list (get s1 ''type'');
                          t2 = type_list (get s2 ''type'');
                          commonTypes = filter (\<lambda>t. t \<in> set t2) t1
                      in if length commonTypes > 0
                         then set_prop merged ''type''
                                (if length commonTypes = 1 then commonTypes ! 0 else JArr commonTypes)
                         else merged
                    else merged);
          merged = (if get s1 ''minProperties'' \<noteq> JUndefined \<or> get s2 ''minProperties'' \<noteq> JUndefined
                    then set_prop merged ''minProperties''
                           (JNum (max (num_or_zero (get s1 ''minProperties''))
                                      (num_or_zero (get s2 ''minProperties''))))
                    else merged)
      in if get s1 ''maxProperties'' \<noteq> JUndefined \<or> get s2 ''maxProperties'' \<noteq> JUndefined
         then (case min_ext (num_or_infinity (get s1 ''maxProperties''))
                            (num_or_infinity (get s2 ''maxProperties'')) of
                 None \<Rightarrow> merged
               | Some m \<Rightarrow> set_prop merged ''maxProperties'' (JNum m))
         else merged)"

subsection \<open>Schema resolution\<close>

text \<open>
  The walk of a \<open>#/a/b/c\<close> reference from the root:
  \<open>for (const segment of path) { resolved = resolved?.[key]; if (!resolved) break; }\<close>
\<close>

fun walk :: "jsval \<Rightarrow> string list \<Rightarrow> jsval" where
  "walk resolved [] = resolved"
| "walk resolved (segment # path) =
     (let r = get resolved (unescape segment) in
      if \<not> truthy r then r else walk r path)"

text \<open>
  \<open>resolveSchema\<close> and \<open>resolveRef\<close> call each other, and nothing in the code bounds
  the recursion but the set \<open>visited\<close>. The first argument of the model bounds the depth
  of nested \<open>resolveSchema\<close> calls: \<open>None\<close> is a call that needs a deeper stack. The
  context is passed in and returned, since \<open>visited\<close> is mutated. \<open>resolve_reduce\<close> is
  the \<open>reduce\<close> over the branches of \<open>allOf\<close> (and over \<open>then\<close> and \<open>else\<close>).
\<close>

fun resolveSchema :: "nat \<Rightarrow> jsval \<Rightarrow> SchemaContext \<Rightarrow> (jsval \<times> SchemaContext) option"
  and resolveRef :: "nat \<Rightarrow> string \<Rightarrow> SchemaContext \<Rightarrow> jsval \<Rightarrow> (jsval \<times> SchemaContext) option"
  and resolve_reduce :: "nat \<Rightarrow> jsval list \<Rightarrow> jsval \<Rightarrow> SchemaContext \<Rightarrow> (jsval \<times> SchemaContext) option"
where
  "resolveSchema 0 schema ctx = None"
| "resolveSchema (Suc n) schema ctx =
     (if truthy (get schema ''$ref'')
      then resolveRef n (str_of (get schema ''$ref'')) ctx schema
      else if truthy (get schema ''$dynamicRef'')
      then resolveRef n (str_of (get schema ''$dynamicRef'')) ctx schema
      else if truthy (get schema ''allOf'')
      then (case resolve_reduce n (arr_items (get schema ''allOf'')) (JObj []) ctx of
              None \<Rightarrow> None
            | Some (merged, ctx') \<Rightarrow>
                Some (set_prop (spread2 schema merged) ''allOf'' JUndefined, ctx'))
      else if truthy (get schema ''anyOf'') \<and> num_lt 0 (get (get schema ''anyOf'') ''length'')
      then resolveSchema n (get (get schema ''anyOf'') ''0'') ctx
      else if truthy (get schema ''oneOf'') \<and> num_lt 0 (get (get schema ''oneOf'') ''length'')
      then resolveSchema n (get (get schema ''oneOf'') ''0'') ctx
      else if truthy (get schema ''not'')
      then Some (set_prop (spread1 schema) ''not'' JUndefined, ctx)
      else if truthy (get schema ''if'') \<and>
              (truthy (get schema ''then'') \<or> truthy (get schema ''else''))
      then (case resolve_reduce n
                   ((if truthy (get schema ''then'') then [get schema ''then''] else []) @
                    (if truthy (get schema ''else'') then [get schema ''else''] else []))
                   (JObj []) ctx of
              None \<Rightarrow> None
            | Some (merged, ctx') \<Rightarrow>
                Some (set_prop (set_prop (set_prop (spread2 schema merged)
                        ''if'' JUndefined) ''then'' JUndefined) ''else'' JUndefined, ctx'))
      else Some (schema, ctx))"
| "resolveRef n ref ctx currentSchema =
     (if ref \<in> visited ctx then Some (JObj [], ctx)
      else
        let ctx1 = ctx\<lparr>visited := insert ref (visited ctx)\<rparr>;
            anchor = (if startsWith ref ''#'' \<and> \<not> includes_str ref ''/''
                      then map_of (anchors ctx1) (slice_from ref 1) else None);
            resolved = (if startsWith ref ''#/''
                        then walk (root ctx1) (split_on (CHR ''/'') (slice_from ref 2))
                        else JUndefined)
        in case anchor of
             Some target \<Rightarrow> resolveSchema n target ctx1
           | None \<Rightarrow>
               if startsWith ref ''#/'' \<and> truthy resolved \<and> typeof_object resolved
               then resolveSchema n resolved ctx1
               else if \<not> startsWith ref ''#'' \<and> \<not> includes_str ref ''://''
               then Some (JObj [], ctx1)
               else Some (JObj [], ctx1\<lparr>visited := visited ctx1 - {ref}\<rparr>))"
| "resolve_reduce n [] acc ctx = Some (acc, ctx)"
| "resolve_reduce n (s # ss) acc ctx =
     (case resolveSchema n s ctx of
        None \<Rightarrow> None
      | Some (resolved, ctx') \<Rightarrow> resolve_reduce n ss (mergeSchemas acc resolved) ctx')"

subsection \<open>Traversal\<close>

text \<open>
  The loop over \<open>patternProperties\<close>: the first pattern that compiles and matches the
  token decides; a pattern that throws is skipped.
\<close>

fun find_pattern :: "regex \<Rightarrow> string \<Rightarrow> jsval \<Rightarrow> string list \<Rightarrow> jsval option" where
  "find_pattern rx token pp [] = None"
| "find_pattern rx token pp (pattern # ps) =
     (if rx pattern token = Some True then Some (get pp pattern)
      else find_pattern rx token pp ps)"

text \<open>The checks of a resolved \<open>propertyNames\<close> schema that reject a token.\<close>

definition propertyNames_rejects :: "regex \<Rightarrow> string \<Rightarrow> jsval \<Rightarrow> bool" where
  "propertyNames_rejects rx token resolved =
     ((get resolved ''const'' \<noteq> JUndefined \<and> get resolved ''const'' \<noteq> JStr token) \<or>
      (get resolved ''enum'' \<noteq> JUndefined \<and> JStr token \<notin> set (arr_items (get resolved ''enum''))) \<or>
      (truthy (get resolved ''pattern'') \<and>
         rx (js_string (get resolved ''pattern'')) token = Some False) \<or>
      (get resolved ''minLength'' \<noteq> JUndefined \<and>
         num_lt (int (length token)) (get resolved ''minLength'')) \<or>
      (get resolved ''maxLength'' \<noteq> JUndefined \<and>
         num_gt (int (length token)) (get resolved ''maxLength'')))"

text \<open>
  \<open>tryObjectTraversal\<close>; the result \<open>JNull\<close> is the source's \<open>null\<close>. The context is
  returned because resolving \<open>propertyNames\<close> may add to \<open>visited\<close>.
\<close>

definition tryObjectTraversal ::
  "nat \<Rightarrow> regex \<Rightarrow> string \<Rightarrow> jsval \<Rightarrow> SchemaContext \<Rightarrow> (jsval \<times> SchemaContext) option" where
  "tryObjectTraversal n rx token schema ctx =
     (if truthy (get schema ''properties'') \<and> has_key token (get schema ''properties'')
      then Some (get (get schema ''properties'') token, ctx)
      else
        case (if truthy (get schema ''patternProperties'')
              then find_pattern rx token (get schema ''patternProperties'')
                     (map fst (entries (get schema ''patternProperties'')))
              else None) of
          Some matched \<Rightarrow> Some (matched, ctx)
        | None \<Rightarrow>
            (case (if truthy (get schema ''propertyNames'')
                   then map_option (\<lambda>(resolved, ctx'). (propertyNames_rejects rx token resolved, ctx'))
                          (resolveSchema n (get schema ''propertyNames'') ctx)
                   else Some (False, ctx)) of
               None \<Rightarrow> None
             | Some (rejected, ctx') \<Rightarrow>
                 if rejected then Some (JNull, ctx')
                 else if get schema ''additionalProperties'' = JBool False then Some (JNull, ctx')
                 else if typeof_object (get schema ''additionalProperties'')
                 then Some (get schema ''additionalProperties'', ctx')
                 else if truthy (get schema ''dependentSchemas'') \<and>
                         truthy (get (get schema ''dependentSchemas'') token)
                 then Some (get (get schema ''dependentSchemas'') token, ctx')
                 else Some (JObj [], ctx')))"

text \<open>
  \<open>tryArrayTraversal\<close>; the source's \<open>context\<close> argument is not used by it and is
  left out.
\<close>

definition tryArrayTraversal :: "string \<Rightarrow> jsval \<Rightarrow> jsval" where
  "tryArrayTraversal token schema =
     (case parseInt token of
        None \<Rightarrow> JNull
      | Some index \<Rightarrow>
          if index < 0 \<or> token \<noteq> toString index then JNull
          else if get schema ''maxItems'' \<noteq> JUndefined \<and> num_ge index (get schema ''maxItems'')
          then JNull
          else if truthy (get schema ''prefixItems'')
          then
            if num_lt index (get (get schema ''prefixItems'') ''length'')
            then get (get schema ''prefixItems'') (toString index)
            else if get schema ''items'' \<noteq> JUndefined \<and> get schema ''items'' = JBool False
            then JNull
            else if get schema ''items'' \<noteq> JUndefined \<and>
                    typeof_object (get schema ''items'') \<and> \<not> isArray (get schema ''items'')
            then get schema ''items''
            else JObj []
          else if isArray (get schema ''items'')
          then
            if num_lt index (get (get schema ''items'') ''length'')
            then get (get schema ''items'') (toString index)
            else if get schema ''additionalItems'' = JBool False then JNull
            else if typeof_object (get schema ''additionalItems'')
            then get schema ''additionalItems''
            else JObj []
          else if get schema ''items'' \<noteq> JUndefined \<and> get schema ''items'' = JBool False
          then JNull
          else if get schema ''items'' \<noteq> JUndefined \<and>
                  typeof_object (get schema ''items'') \<and> \<not> isArray (get schema ''items'')
          then get schema ''items''
          else JObj [])"

text \<open>\<open>{ ...schema, type }\<close>\<close>

definition with_type :: "jsval \<Rightarrow> jsval \<Rightarrow> jsval" where
  "with_type schema t = set_prop (spread1 schema) ''type'' t"

lemma get_with_type: "get (with_type schema t) ''type'' = t"
  by (simp add: with_type_def spread1_def update_conv')

text \<open>
  \<open>getNextSchema\<close>, with the loop over the members of a multi-valued \<open>type\<close> as
  \<open>getNextSchema_types\<close>. The recursion ends because each call works on one member of
  the \<open>type\<close> array of its caller.
\<close>

function getNextSchema ::
    "nat \<Rightarrow> regex \<Rightarrow> string \<Rightarrow> jsval \<Rightarrow> SchemaContext \<Rightarrow> (jsval \<times> SchemaContext) option"
  and getNextSchema_types ::
    "nat \<Rightarrow> regex \<Rightarrow> string \<Rightarrow> jsval \<Rightarrow> jsval list \<Rightarrow> SchemaContext \<Rightarrow> (jsval \<times> SchemaContext) option"
where
  "getNextSchema n rx token schema ctx =
     (let schemaTypes = type_list (get schema ''type'') in
      case (if JStr ''object'' \<in> set schemaTypes \<or> truthy (get schema ''properties'') \<or>
               truthy (get schema ''patternProperties'') \<or> \<not> truthy (get schema ''type'')
            then tryObjectTraversal n rx token schema ctx
            else Some (JNull, ctx)) of
        None \<Rightarrow> None
      | Some (objectSchema, ctx') \<Rightarrow>
          if truthy objectSchema then Some (objectSchema, ctx')
          else
            let arraySchema =
                  (if JStr ''array'' \<in> set schemaTypes \<or> truthy (get schema ''items'') \<or>
                      truthy (get schema ''prefixItems'')
                   then tryArrayTraversal token schema else JNull)
            in if truthy arraySchema then Some (arraySchema, ctx')
               else if isArray (get schema ''type'') \<and> length (arr_items (get schema ''type'')) > 1
               then getNextSchema_types n rx token schema (arr_items (get schema ''type'')) ctx'
               else Some (JNull, ctx'))"
| "getNextSchema_types n rx token schema [] ctx = Some (JNull, ctx)"
| "getNextSchema_types n rx token schema (t # ts) ctx =
     (case getNextSchema n rx token (with_type schema t) ctx of
        None \<Rightarrow> None
      | Some (result, ctx') \<Rightarrow>
          if truthy result then Some (result, ctx')
          else getNextSchema_types n rx token schema ts ctx')"
  by pat_completeness auto
termination
proof (relation "measure (\<lambda>x. case x of
          Inl (n, rx, token, schema, ctx) \<Rightarrow> 2 * size (get schema ''type'')
        | Inr (n, rx, token, schema, ts, ctx) \<Rightarrow> 2 * size_list size ts + 1)", goal_cases)
  case 1
  then show ?case by simp
next
  case (2 n rx token schema ctx)
  then show ?case by (cases "get schema ''type''") auto
next
  case 3
  then show ?case by (simp add: get_with_type)
next
  case 4
  then show ?case by simp
qed

declare getNextSchema.simps [simp del]

text \<open>The loop of \<open>validateTokens\<close>, one token per step.\<close>

fun validateTokens ::
  "nat \<Rightarrow> regex \<Rightarrow> string list \<Rightarrow> jsval \<Rightarrow> SchemaContext \<Rightarrow> bool option" where
  "validateTokens n rx [] schema ctx = Some True"
| "validateTokens n rx (token # tokens) schema ctx =
     (case resolveSchema n schema ctx of
        None \<Rightarrow> None
      | Some (currentSchema, ctx1) \<Rightarrow>
          if \<not> truthy currentSchema then Some False
          else if get currentSchema ''const'' \<noteq> JUndefined \<or> get currentSchema ''enum'' \<noteq> JUndefined
          then Some False
          else
            (case getNextSchema n rx token currentSchema ctx1 of
               None \<Rightarrow> None
             | Some (nextSchema, ctx2) \<Rightarrow>
                 if \<not> truthy nextSchema then Some False
                 else validateTokens n rx tokens nextSchema ctx2))"

text \<open>
  \<open>validateJSONPointer\<close>: \<open>Some b\<close> is the boolean the code returns, \<open>None\<close> a
  resolution deeper than \<open>n\<close>.
\<close>

definition validateJSONPointer :: "nat \<Rightarrow> regex \<Rightarrow> string \<Rightarrow> jsval \<Rightarrow> bool option" where
  "validateJSONPointer n rx pointer schema =
     (if pointer = '''' \<or> pointer = ''/'' then Some True
      else if \<not> startsWith pointer ''/'' then Some False
      else
        let tokens = map unescape (split_on (CHR ''/'') (slice_from pointer 1));
            context = \<lparr> root = schema,
                        definitions = spread2 (get schema ''$defs'') (get schema ''definitions''),
                        visited = {},
                        anchors = [] \<rparr>
        in validateTokens n rx tokens schema (collectAnchors schema context))"

section \<open>json-patch.validator.ts\<close>

record ValidationError =
  operation :: int
  error :: string

record PatchValidationResult =
  valid :: bool
  errors :: "ValidationError list"

fun is_string :: "jsval \<Rightarrow> bool" where
  "is_string (JStr s) = True"
| "is_string v = False"

subsection \<open>The patch validator's own schema lookup\<close>

text \<open>
  json-patch.validator.ts has its own copies of \<open>mergeSchemas\<close> and \<open>resolveSchema\<close>,
  shorter than those of json-pointer.validator.ts: no anchors, no \<open>$dynamicRef\<close>, no
  \<open>not\<close>, no \<open>if\<close>, no \<open>minProperties\<close> and \<open>maxProperties\<close>. They keep their names
  with the suffix \<open>_patch\<close>.
\<close>

definition mergeSchemas_patch :: "jsval \<Rightarrow> jsval \<Rightarrow> jsval" where
  "mergeSchemas_patch s1 s2 =
     (let merged = spread2 s1 s2;
          merged = (if truthy (get s1 ''properties'') \<or> truthy (get s2 ''properties'')
                    then set_prop merged ''properties''
                           (spread2 (get s1 ''properties'') (get s2 ''properties''))
                    else merged);
          merged = (if truthy (get s1 ''patternProperties'') \<or> truthy (get s2 ''patternProperties'')
                    then set_prop merged ''patternProperties''
                           (spread2 (get s1 ''patternProperties'') (get s2 ''patternProperties''))
                    else merged);
          merged = (if truthy (get s1 ''required'') \<or> truthy (get s2 ''required'')
                    then set_prop merged ''required''
                           (JArr (dedup []
                              (elems (if truthy (get s1 ''required'') then get s1 ''required'' else JArr []) @
                               elems (if truthy (get s2 ''required'') then get s2 ''required'' else JArr []))))
                    else merged)
      in if truthy (get s1 ''type'') \<and> truthy (get s2 ''type'')
         then
           let t1 = type_list (get s1 ''type'');
               t2 = type_list (get s2 ''type'');
               commonTypes = filter (\<lambda>t. t \<in> set t2) t1
           in if length commonTypes > 0
              then set_prop merged ''type''
                     (if length commonTypes = 1 then commonTypes ! 0 else JArr commonTypes)
              else merged
         else merged)"

fun resolveSchema_patch :: "nat \<Rightarrow> jsval \<Rightarrow> SchemaContext \<Rightarrow> (jsval \<times> SchemaContext) option"
  and resolve_reduce_patch :: "nat \<Rightarrow> jsval list \<Rightarrow> jsval \<Rightarrow> SchemaContext \<Rightarrow> (jsval \<times> SchemaContext) option"
where
  "resolveSchema_patch 0 schema ctx = None"
| "resolveSchema_patch (Suc n) schema ctx =
     (if truthy (get schema ''$ref'')
      then
        let refPath = str_of (get schema ''$ref'') in
        if refPath \<in> visited ctx then Some (JObj [], ctx)
        else
          let ctx1 = ctx\<lparr>visited := insert refPath (visited ctx)\<rparr>;
              resolved = (if startsWith refPath ''#/''
                          then walk (root ctx1) (split_on (CHR ''/'') (slice_from refPath 2))
                          else JUndefined)
          in if startsWith refPath ''#/'' \<and> truthy resolved \<and> typeof_object resolved
             then resolveSchema_patch n resolved ctx1
             else Some (JObj [], ctx1\<lparr>visited := visited ctx1 - {refPath}\<rparr>)
      else if truthy (get schema ''allOf'')
      then (case resolve_reduce_patch n (arr_items (get schema ''allOf'')) (JObj []) ctx of
              None \<Rightarrow> None
            | Some (merged, ctx') \<Rightarrow>
                Some (set_prop (spread2 schema merged) ''allOf'' JUndefined, ctx'))
      else if truthy (get schema ''anyOf'') \<and> num_lt 0 (get (get schema ''anyOf'') ''length'')
      then resolveSchema_patch n (get (get schema ''anyOf'') ''0'') ctx
      else if truthy (get schema ''oneOf'') \<and> num_lt 0 (get (get schema ''oneOf'') ''length'')
      then resolveSchema_patch n (get (get schema ''oneOf'') ''0'') ctx
      else Some (schema, ctx))"
| "resolve_reduce_patch n [] acc ctx = Some (acc, ctx)"
| "resolve_reduce_patch n (s # ss) acc ctx =
     (case resolveSchema_patch n s ctx of
        None \<Rightarrow> None
      | Some (resolved, ctx') \<Rightarrow> resolve_reduce_patch n ss (mergeSchemas_patch acc resolved) ctx')"

text \<open>\<open>getNextSchemaForToken\<close>; its third argument \<open>rootSchema\<close> is not used and is left out.\<close>

definition getNextSchemaForToken :: "regex \<Rightarrow> string \<Rightarrow> jsval \<Rightarrow> jsval" where
  "getNextSchemaForToken rx token schema =
     (let schemaTypes = type_list (get schema ''type'') in
      if JStr ''object'' \<in> set schemaTypes \<or> truthy (get schema ''properties'') \<or>
         \<not> truthy (get schema ''type'')
      then
        if truthy (get schema ''properties'') \<and> has_key token (get schema ''properties'')
        then get (get schema ''properties'') token
        else
          case (if truthy (get schema ''patternProperties'')
                then find_pattern rx token (get schema ''patternProperties'')
                       (map fst (entries (get schema ''patternProperties'')))
                else None) of
            Some matched \<Rightarrow> matched
          | None \<Rightarrow>
              if get schema ''additionalProperties'' = JBool False then JNull
              else if typeof_object (get schema ''additionalProperties'')
              then get schema ''additionalProperties''
              else JObj []
      else if JStr ''array'' \<in> set schemaTypes \<or> truthy (get schema ''items'') \<or>
              truthy (get schema ''prefixItems'')
      then
        (case parseInt token of
           None \<Rightarrow> JNull
         | Some index \<Rightarrow>
             if index < 0 \<or> token \<noteq> toString index then JNull
             else if truthy (get schema ''prefixItems'')
             then
               if num_lt index (get (get schema ''prefixItems'') ''length'')
               then get (get schema ''prefixItems'') (toString index)
               else if get schema ''items'' \<noteq> JUndefined \<and> get schema ''items'' = JBool False
               then JNull
               else if get schema ''items'' \<noteq> JUndefined \<and>
                       typeof_object (get schema ''items'') \<and> \<not> isArray (get schema ''items'')
               then get schema ''items''
               else JObj []
             else if isArray (get schema ''items'')
             then
               if num_lt index (get (get schema ''items'') ''length'')
               then get (get schema ''items'') (toString index)
               else if get schema ''additionalItems'' = JBool False then JNull
               else if typeof_object (get schema ''additionalItems'')
               then get schema ''additionalItems''
               else JObj []
             else if get schema ''items'' \<noteq> JUndefined \<and> get schema ''items'' = JBool False
             then JNull
             else if get schema ''items'' \<noteq> JUndefined \<and>
                     typeof_object (get schema ''items'') \<and> \<not> isArray (get schema ''items'')
             then get schema ''items''
             else JObj [])
      else JNull)"

text \<open>
  The loop of \<open>getSchemaAtPath\<close>: every step resolves the current schema in a context
  of its own, with an empty \<open>visited\<close> set and no anchors.
\<close>

fun getSchemaAtPath_tokens :: "nat \<Rightarrow> regex \<Rightarrow> string list \<Rightarrow> jsval \<Rightarrow> jsval \<Rightarrow> jsval option" where
  "getSchemaAtPath_tokens n rx [] currentSchema schema = Some currentSchema"
| "getSchemaAtPath_tokens n rx (token # tokens) currentSchema schema =
     (case resolveSchema_patch n currentSchema
             \<lparr> root = schema,
               definitions = spread2 (get schema ''$defs'') (get schema ''definitions''),
               visited = {},
               anchors = [] \<rparr> of
        None \<Rightarrow> None
      | Some (currentSchema', ctx') \<Rightarrow>
          if \<not> truthy currentSchema' then Some JNull
          else
            let nextSchema = getNextSchemaForToken rx token currentSchema' in
            if \<not> truthy nextSchema then Some JNull
            else getSchemaAtPath_tokens n rx tokens nextSchema schema)"

definition getSchemaAtPath :: "nat \<Rightarrow> regex \<Rightarrow> string \<Rightarrow> jsval \<Rightarrow> jsval option" where
  "getSchemaAtPath n rx path schema =
     (if path = '''' \<or> path = ''/'' then Some schema
      else getSchemaAtPath_tokens n rx
             (map unescape (split_on (CHR ''/'') (slice_from path 1))) schema schema)"

text \<open>\<open>checkRequiredProperty\<close>: \<open>Some None\<close> is the source's \<open>null\<close>, \<open>Some (Some msg)\<close> the message.\<close>

definition checkRequiredProperty :: "nat \<Rightarrow> regex \<Rightarrow> string \<Rightarrow> jsval \<Rightarrow> string option option" where
  "checkRequiredProperty n rx path schema =
     (let lastSlash = lastIndexOf path (CHR ''/'') in
      if lastSlash \<le> 0 then Some None
      else
        let parentPath = (if lastSlash = 0 then ''/'' else slice path 0 lastSlash);
            propertyName = slice_from path (lastSlash + 1)
        in case getSchemaAtPath n rx parentPath schema of
             None \<Rightarrow> None
           | Some parentSchema \<Rightarrow>
               if \<not> truthy parentSchema then Some None
               else if truthy (get parentSchema ''required'') \<and>
                       JStr propertyName \<in> set (arr_items (get parentSchema ''required''))
               then Some (Some (''Cannot remove required property '' @ quoted propertyName))
               else Some None)"

subsection \<open>Operations\<close>

text \<open>\<open>validateAddPath\<close> returns the object \<open>{valid, error}\<close>, here a pair.\<close>

definition validateAddPath :: "nat \<Rightarrow> regex \<Rightarrow> string \<Rightarrow> jsval \<Rightarrow> (bool \<times> string) option" where
  "validateAddPath n rx path schema =
     (if path = '''' \<or> path = ''/'' then Some (True, '''')
      else
        let lastSlash = lastIndexOf path (CHR ''/'');
            parentPath = (if lastSlash = 0 then ''/'' else slice path 0 lastSlash);
            target = slice_from path (lastSlash + 1)
        in if parentPath = ''/'' \<and> target = '''' then Some (True, '''')
           else
             case validateJSONPointer n rx parentPath schema of
               None \<Rightarrow> None
             | Some parentOk \<Rightarrow>
                 if \<not> parentOk
                 then Some (False, ''Parent path '' @ quoted parentPath @
                                   '' is not valid according to schema'')
                 else if target = ''-'' then Some (True, '''')
                 else if (case parseInt target of
                            None \<Rightarrow> False
                          | Some index \<Rightarrow> target = toString index)
                 then Some (True, '''')
                 else
                   (case validateJSONPointer n rx path schema of
                      None \<Rightarrow> None
                    | Some pathOk \<Rightarrow>
                        if \<not> pathOk
                        then Some (False, ''Path '' @ quoted path @
                                          '' is not valid according to schema'')
                        else Some (True, '''')))"

definition validateAdd :: "nat \<Rightarrow> regex \<Rightarrow> jsval \<Rightarrow> jsval \<Rightarrow> int \<Rightarrow> ValidationError list option" where
  "validateAdd n rx oper schema index =
     (if \<not> truthy (get oper ''path'')
      then Some [\<lparr>operation = index,
                  error = ''Add operation must have a '' @ quoted ''path'' @ '' property''\<rparr>]
      else if \<not> has_key ''value'' oper
      then Some [\<lparr>operation = index,
                  error = ''Add operation must have a '' @ quoted ''value'' @ '' property''\<rparr>]
      else if \<not> is_string (get oper ''path'')
      then Some [\<lparr>operation = index, error = ''Path must be a string''\<rparr>]
      else
        case validateAddPath n rx (str_of (get oper ''path'')) schema of
          None \<Rightarrow> None
        | Some (pathValid, pathError) \<Rightarrow>
            Some (if \<not> pathValid then [\<lparr>operation = index, error = pathError\<rparr>] else []))"

definition validateRemove :: "nat \<Rightarrow> regex \<Rightarrow> jsval \<Rightarrow> jsval \<Rightarrow> int \<Rightarrow> ValidationError list option" where
  "validateRemove n rx oper schema index =
     (if \<not> truthy (get oper ''path'')
      then Some [\<lparr>operation = index,
                  error = ''Remove operation must have a '' @ quoted ''path'' @ '' property''\<rparr>]
      else if \<not> is_string (get oper ''path'')
      then Some [\<lparr>operation = index, error = ''Path must be a string''\<rparr>]
      else
        let path = str_of (get oper ''path'') in
        case validateJSONPointer n rx path schema of
          None \<Rightarrow> None
        | Some pathOk \<Rightarrow>
            (case checkRequiredProperty n rx path schema of
               None \<Rightarrow> None
             | Some requiredError \<Rightarrow>
                 Some ((if \<not> pathOk
                        then [\<lparr>operation = index,
                               error = ''Path '' @ quoted path @ '' is not valid according to schema''\<rparr>]
                        else []) @
                       (case requiredError of
                          None \<Rightarrow> []
                        | Some msg \<Rightarrow> [\<lparr>operation = index, error = msg\<rparr>]))))"

definition validateReplace :: "nat \<Rightarrow> regex \<Rightarrow> jsval \<Rightarrow> jsval \<Rightarrow> int \<Rightarrow> ValidationError list option" where
  "validateReplace n rx oper schema index =
     (if \<not> truthy (get oper ''path'')
      then Some [\<lparr>operation = index,
                  error = ''Replace operation must have a '' @ quoted ''path'' @ '' property''\<rparr>]
      else if \<not> has_key ''value'' oper
      then Some [\<lparr>operation = index,
                  error = ''Replace operation must have a '' @ quoted ''value'' @ '' property''\<rparr>]
      else if \<not> is_string (get oper ''path'')
      then Some [\<lparr>operation = index, error = ''Path must be a string''\<rparr>]
      else
        let path = str_of (get oper ''path'') in
        case validateJSONPointer n rx path schema of
          None \<Rightarrow> None
        | Some pathOk \<Rightarrow>
            Some (if \<not> pathOk
                  then [\<lparr>operation = index,
                         error = ''Path '' @ quoted path @ '' is not valid according to schema''\<rparr>]
                  else []))"

definition validateMove :: "nat \<Rightarrow> regex \<Rightarrow> jsval \<Rightarrow> jsval \<Rightarrow> int \<Rightarrow> ValidationError list option" where
  "validateMove n rx oper schema index =
     (let missing =
            (if \<not> truthy (get oper ''from'')
             then [\<lparr>operation = index,
                    error = ''Move operation must have a '' @ quoted ''from'' @ '' property''\<rparr>]
             else []) @
            (if \<not> truthy (get oper ''path'')
             then [\<lparr>operation = index,
                    error = ''Move operation must have a '' @ quoted ''path'' @ '' property''\<rparr>]
             else [])
      in if length missing > 0 then Some missing
         else
           let mistyped =
                 (if \<not> is_string (get oper ''from'')
                  then [\<lparr>operation = index, error = ''From must be a string''\<rparr>] else []) @
                 (if \<not> is_string (get oper ''path'')
                  then [\<lparr>operation = index, error = ''Path must be a string''\<rparr>] else [])
           in if length mistyped > 0 then Some mistyped
              else
                let from = str_of (get oper ''from'');
                    path = str_of (get oper ''path'')
                in case validateJSONPointer n rx from schema of
                     None \<Rightarrow> None
                   | Some fromOk \<Rightarrow>
                       (case validateAddPath n rx path schema of
                          None \<Rightarrow> None
                        | Some (pathValid, pathError) \<Rightarrow>
                            (case checkRequiredProperty n rx from schema of
                               None \<Rightarrow> None
                             | Some requiredError \<Rightarrow>
                                 Some ((if \<not> fromOk
                                        then [\<lparr>operation = index,
                                               error = ''From path '' @ quoted from @
                                                       '' is not valid according to schema''\<rparr>]
                                        else []) @
                                       (if \<not> pathValid
                                        then [\<lparr>operation = index, error = pathError\<rparr>] else []) @
                                       (if startsWith from (path @ ''/'')
                                        then [\<lparr>operation = index,
                                               error = ''Cannot move to a location that is a child of the source''\<rparr>]
                                        else []) @
                                       (case requiredError of
                                          None \<Rightarrow> []
                                        | Some msg \<Rightarrow> [\<lparr>operation = index, error = msg\<rparr>])))))"

definition validateCopy :: "nat \<Rightarrow> regex \<Rightarrow> jsval \<Rightarrow> jsval \<Rightarrow> int \<Rightarrow> ValidationError list option" where
  "validateCopy n rx oper schema index =
     (let missing =
            (if \<not> truthy (get oper ''from'')
             then [\<lparr>operation = index,
                    error = ''Copy operation must have a '' @ quoted ''from'' @ '' property''\<rparr>]
             else []) @
            (if \<not> truthy (get oper ''path'')
             then [\<lparr>operation = index,
                    error = ''Copy operation must have a '' @ quoted ''path'' @ '' property''\<rparr>]
             else [])
      in if length missing > 0 then Some missing
         else
           let mistyped =
                 (if \<not> is_string (get oper ''from'')
                  then [\<lparr>operation = index, error = ''From must be a string''\<rparr>] else []) @
                 (if \<not> is_string (get oper ''path'')
                  then [\<lparr>operation = index, error = ''Path must be a string''\<rparr>] else [])
           in if length mistyped > 0 then Some mistyped
              else
                let from = str_of (get oper ''from'');
                    path = str_of (get oper ''path'')
                in case validateJSONPointer n rx from schema of
                     None \<Rightarrow> None
                   | Some fromOk \<Rightarrow>
                       (case validateAddPath n rx path schema of
                          None \<Rightarrow> None
                        | Some (pathValid, pathError) \<Rightarrow>
                            Some ((if \<not> fromOk
                                   then [\<lparr>operation = index,
                                          error = ''From path '' @ quoted from @
                                                  '' is not valid according to schema''\<rparr>]
                                   else []) @
                                  (if \<not> pathValid
                                   then [\<lparr>operation = index, error = pathError\<rparr>] else []))))"

definition validateTest :: "nat \<Rightarrow> regex \<Rightarrow> jsval \<Rightarrow> jsval \<Rightarrow> int \<Rightarrow> ValidationError list option" where
  "validateTest n rx oper schema index =
     (if \<not> truthy (get oper ''path'')
      then Some [\<lparr>operation = index,
                  error = ''Test operation must have a '' @ quoted ''path'' @ '' property''\<rparr>]
      else if \<not> has_key ''value'' oper
      then Some [\<lparr>operation = index,
                  error = ''Test operation must have a '' @ quoted ''value'' @ '' property''\<rparr>]
      else if \<not> is_string (get oper ''path'')
      then Some [\<lparr>operation = index, error = ''Path must be a string''\<rparr>]
      else
        let path = str_of (get oper ''path'') in
        case validateJSONPointer n rx path schema of
          None \<Rightarrow> None
        | Some pathOk \<Rightarrow>
            Some (if \<not> pathOk
                  then [\<lparr>operation = index,
                         error = ''Path '' @ quoted path @ '' is not valid according to schema''\<rparr>]
                  else []))"

definition validOps :: "string list" where
  "validOps = [''add'', ''remove'', ''replace'', ''move'', ''copy'', ''test'']"

text \<open>\<open>validOps.join(", ")\<close>\<close>

fun join_comma :: "string list \<Rightarrow> string" where
  "join_comma [] = ''''"
| "join_comma [s] = s"
| "join_comma (s # ss) = s @ '', '' @ join_comma ss"

definition validateOperation :: "nat \<Rightarrow> regex \<Rightarrow> jsval \<Rightarrow> jsval \<Rightarrow> int \<Rightarrow> ValidationError list option" where
  "validateOperation n rx oper schema index =
     (if \<not> truthy oper \<or> \<not> typeof_object oper
      then Some [\<lparr>operation = index, error = ''Operation must be an object''\<rparr>]
      else if \<not> truthy (get oper ''op'')
      then Some [\<lparr>operation = index,
                  error = ''Operation must have an '' @ quoted ''op'' @ '' property''\<rparr>]
      else if get oper ''op'' \<notin> set (map JStr validOps)
      then Some [\<lparr>operation = index,
                  error = ''Invalid operation '' @ quoted (js_string (get oper ''op'')) @
                          ''. Must be one of: '' @ join_comma validOps\<rparr>]
      else if get oper ''op'' = JStr ''add'' then validateAdd n rx oper schema index
      else if get oper ''op'' = JStr ''remove'' then validateRemove n rx oper schema index
      else if get oper ''op'' = JStr ''replace'' then validateReplace n rx oper schema index
      else if get oper ''op'' = JStr ''move'' then validateMove n rx oper schema index
      else if get oper ''op'' = JStr ''copy'' then validateCopy n rx oper schema index
      else if get oper ''op'' = JStr ''test'' then validateTest n rx oper schema index
      else Some [])"

text \<open>The \<open>for\<close> loop of \<open>validateJSONPatch\<close>: operation \<open>i\<close>, then the rest.\<close>

fun validateJSONPatch_loop ::
  "nat \<Rightarrow> regex \<Rightarrow> jsval list \<Rightarrow> jsval \<Rightarrow> int \<Rightarrow> ValidationError list \<Rightarrow> ValidationError list option" where
  "validateJSONPatch_loop n rx [] schema i errs = Some errs"
| "validateJSONPatch_loop n rx (oper # patch) schema i errs =
     (case validateOperation n rx oper schema i of
        None \<Rightarrow> None
      | Some operationErrors \<Rightarrow>
          validateJSONPatch_loop n rx patch schema (i + 1) (errs @ operationErrors))"

text \<open>
  \<open>validateJSONPatch\<close>, the \<open>validatePatch\<close> of the specification: \<open>Some r\<close> is the
  result the code returns, \<open>None\<close> a schema resolution deeper than \<open>n\<close>.
\<close>

definition validateJSONPatch :: "nat \<Rightarrow> regex \<Rightarrow> jsval \<Rightarrow> jsval \<Rightarrow> PatchValidationResult option" where
  "validateJSONPatch n rx patch schema =
     (if \<not> isArray patch
      then Some \<lparr>valid = False,
                 errors = [\<lparr>operation = - 1, error = ''Patch must be an array''\<rparr>]\<rparr>
      else
        case validateJSONPatch_loop n rx (arr_items patch) schema 0 [] of
          None \<Rightarrow> None
        | Some errs \<Rightarrow> Some \<lparr>valid = (length errs = 0), errors = errs\<rparr>)"

section \<open>Vocabulary of the claims\<close>

text \<open>The capitalised operation name that opens the messages of an operation's validator.\<close>

definition op_title :: "string \<Rightarrow> string" where
  "op_title s =
     (if s = ''add'' then ''Add'' else if s = ''remove'' then ''Remove''
      else if s = ''replace'' then ''Replace'' else if s = ''move'' then ''Move''
      else if s = ''copy'' then ''Copy'' else if s = ''test'' then ''Test'' else s)"

text \<open>A linked list: every node allows the property \<open>next\<close>, a node again, and no other.\<close>

definition linked_list_schema :: jsval where
  "linked_list_schema =
     JObj [(''$ref'', JStr ''#/$defs/node''),
           (''$defs'', JObj [(''node'',
              JObj [(''type'', JStr ''object''),
                    (''properties'', JObj [(''next'', JObj [(''$ref'', JStr ''#/$defs/node'')])]),
                    (''additionalProperties'', JBool False)])])]"

text \<open>A value that is an object, as every schema is by its type.\<close>

fun isObj :: "jsval \<Rightarrow> bool" where
  "isObj (JObj kvs) = True"
| "isObj v = False"

text \<open>
  The types two schemas have in common: those of the first, in its order, that the second
  declares too.
\<close>

definition commonTypes :: "jsval \<Rightarrow> jsval \<Rightarrow> jsval list" where
  "commonTypes s1 s2 =
     filter (\<lambda>t. t \<in> set (type_list (get s2 ''type''))) (type_list (get s1 ''type''))"

text \<open>
  A schema with no reference, no \<open>allOf\<close>, \<open>anyOf\<close>, \<open>oneOf\<close> or \<open>if\<close> and no \<open>const\<close>
  or \<open>enum\<close>: resolution returns it, with at most \<open>not\<close> stripped, and traversal is
  not blocked.
\<close>

definition plain_schema :: "jsval \<Rightarrow> bool" where
  "plain_schema s =
     (\<not> truthy (get s ''$ref'') \<and> \<not> truthy (get s ''$dynamicRef'') \<and>
      \<not> truthy (get s ''allOf'') \<and> \<not> truthy (get s ''anyOf'') \<and>
      \<not> truthy (get s ''oneOf'') \<and> \<not> truthy (get s ''if'') \<and>
      get s ''const'' = JUndefined \<and> get s ''enum'' = JUndefined)"

section \<open>Properties of the helper functions\<close>

subsection \<open>Decimal strings\<close>

lemma digit_char_props: "d < 10 \<Longrightarrow> digit_val (digit_char d) = d \<and> is_digit (digit_char d) \<and> \<not> is_space (digit_char d)"
proof -
  assume "d < 10"
  then have "d = 0 \<or> d = 1 \<or> d = 2 \<or> d = 3 \<or> d = 4 \<or> d = 5 \<or> d = 6 \<or> d = 7 \<or> d = 8 \<or> d = 9"
    by arith
  then show ?thesis
    by (elim disjE) (simp_all add: digit_val_def digit_char_def is_digit_def is_space_def)
qed

lemma digits_nonempty: "digits n \<noteq> []"
  by (subst digits.simps) simp

lemma digits_all_digit: "c \<in> set (digits n) \<Longrightarrow> is_digit c"
proof (induction n arbitrary: c rule: digits.induct)
  case (1 n)
  show ?case
  proof (cases "n < 10")
    case True
    with "1.prems" show ?thesis
      by (subst (asm) digits.simps) (simp add: digit_char_props)
  next
    case False
    with "1.prems" have "c \<in> set (digits (n div 10)) \<or> c = digit_char (n mod 10)"
      by (subst (asm) digits.simps) auto
    then show ?thesis
    proof
      assume "c \<in> set (digits (n div 10))"
      then show ?thesis using "1.IH" [OF False] by simp
    next
      assume "c = digit_char (n mod 10)"
      then show ?thesis using digit_char_props [of "n mod 10"] by simp
    qed
  qed
qed

lemma parse_digits_snoc: "parse_digits (ds @ [c]) = 10 * parse_digits ds + digit_val c"
  by (simp add: parse_digits_def)

lemma parse_digits_digits: "parse_digits (digits n) = n"
proof (induction n rule: digits.induct)
  case (1 n)
  show ?case
  proof (cases "n < 10")
    case True
    then show ?thesis
      by (subst digits.simps) (simp add: parse_digits_def digit_char_props)
  next
    case False
    then show ?thesis
      using "1.IH" [OF False] digit_char_props [of "n mod 10"]
      by (subst digits.simps) (simp add: parse_digits_snoc)
  qed
qed

lemma is_digit_not_sign: "is_digit c \<Longrightarrow> c \<noteq> CHR ''-'' \<and> c \<noteq> CHR ''+'' \<and> \<not> is_space c"
  by (auto simp: is_digit_def is_space_def)

lemma takeWhile_digits: "takeWhile is_digit (digits n) = digits n"
  by (simp add: digits_all_digit)

lemma parseInt_toString: "parseInt (toString (int n)) = Some (int n)"
proof -
  obtain c cs where d: "digits n = c # cs"
    using digits_nonempty [of n] by (cases "digits n") auto
  have c: "is_digit c"
    using digits_all_digit [of c n] d by simp
  have tw: "takeWhile is_digit cs = cs"
    using takeWhile_digits [of n] d c by simp
  have pd: "parse_digits (c # cs) = n"
    using parse_digits_digits [of n] d by simp
  have ns: "c \<noteq> CHR ''-''" "c \<noteq> CHR ''+''" "\<not> is_space c"
    using is_digit_not_sign [OF c] by simp_all
  show ?thesis
    by (simp add: parseInt_def toString_def d Let_def tw pd c ns)
qed

lemma array_index_toString: "array_index (toString (int n)) = Some n"
  by (simp add: array_index_def parseInt_toString)

lemma array_index_length: "array_index ''length'' = None"
  by (simp add: array_index_def parseInt_def is_space_def is_digit_def)

lemma toString_0: "toString 0 = ''0''"
  by (simp add: toString_def digits.simps digit_char_def)

lemma array_index_0: "array_index ''0'' = Some 0"
  using array_index_toString [of 0] by (simp add: toString_0)

subsection \<open>Patch batches\<close>

lemma get_keyword_object:
  assumes "get v k = JStr s" and "parseInt k = None" and "k \<noteq> ''length''"
  shows "\<exists>kvs. v = JObj kvs"
  using assms by (cases v) (auto simp: array_index_def)

lemma validateJSONPatch_loop_Some:
  "(\<forall>k < length ops. validateOperation n rx (ops ! k) schema (i + int k) = Some (es k)) \<Longrightarrow>
   validateJSONPatch_loop n rx ops schema i errs = Some (errs @ concat (map es [0..<length ops]))"
proof (induction ops arbitrary: i errs es)
  case Nil
  then show ?case by simp
next
  case (Cons a ops)
  have h0: "validateOperation n rx a schema i = Some (es 0)"
    using Cons.prems [rule_format, of 0] by simp
  have hs: "\<forall>k < length ops. validateOperation n rx (ops ! k) schema ((i + 1) + int k) = Some ((es \<circ> Suc) k)"
  proof (intro allI impI)
    fix k assume "k < length ops"
    then show "validateOperation n rx (ops ! k) schema ((i + 1) + int k) = Some ((es \<circ> Suc) k)"
      using Cons.prems [rule_format, of "Suc k"] by (simp add: algebra_simps)
  qed
  have eq: "concat (map es [0..<length (a # ops)]) = es 0 @ concat (map (es \<circ> Suc) [0..<length ops])"
    by (simp add: upt_conv_Cons map_Suc_upt [symmetric] del: upt_Suc)
  have "validateJSONPatch_loop n rx (a # ops) schema i errs =
          validateJSONPatch_loop n rx ops schema (i + 1) (errs @ es 0)"
    using h0 by simp
  also have "\<dots> = Some ((errs @ es 0) @ concat (map (es \<circ> Suc) [0..<length ops]))"
    by (rule Cons.IH [OF hs])
  finally show ?case
    by (simp only: eq append_assoc)
qed

lemma validateJSONPatch_loop_inv:
  "validateJSONPatch_loop n rx ops schema i errs = Some out \<Longrightarrow>
   \<exists>es. (\<forall>k < length ops. validateOperation n rx (ops ! k) schema (i + int k) = Some (es k)) \<and>
        out = errs @ concat (map es [0..<length ops])"
proof (induction ops arbitrary: i errs)
  case Nil
  then show ?case by simp
next
  case (Cons a ops)
  from Cons.prems obtain e0 where e0: "validateOperation n rx a schema i = Some e0"
    and rest: "validateJSONPatch_loop n rx ops schema (i + 1) (errs @ e0) = Some out"
    by (auto split: option.splits)
  from Cons.IH [OF rest] obtain es'
    where es': "\<forall>k < length ops. validateOperation n rx (ops ! k) schema ((i + 1) + int k) = Some (es' k)"
      and out: "out = (errs @ e0) @ concat (map es' [0..<length ops])"
    by blast
  define es where "es = case_nat e0 es'"
  have "\<forall>k < length (a # ops). validateOperation n rx ((a # ops) ! k) schema (i + int k) = Some (es k)"
  proof (intro allI impI)
    fix k assume k: "k < length (a # ops)"
    show "validateOperation n rx ((a # ops) ! k) schema (i + int k) = Some (es k)"
    proof (cases k)
      case 0
      then show ?thesis using e0 by (simp add: es_def)
    next
      case (Suc j)
      then show ?thesis
        using es' [rule_format, of j] k by (simp add: es_def algebra_simps)
    qed
  qed
  moreover have "concat (map es [0..<length (a # ops)]) = e0 @ concat (map es' [0..<length ops])"
    by (simp add: upt_conv_Cons map_Suc_upt [symmetric] es_def comp_def del: upt_Suc)
  ultimately show ?case
    using out by (intro exI [of _ es]) (simp only: append_assoc simp_thms)
qed

lemma validateJSONPatch_inv:
  assumes "validateJSONPatch n rx (JArr ops) schema = Some r"
  shows "\<exists>es. (\<forall>k < length ops. validateOperation n rx (ops ! k) schema (int k) = Some (es k)) \<and>
           errors r = concat (map es [0..<length ops]) \<and> valid r = (errors r = [])"
proof -
  from assms obtain out where l: "validateJSONPatch_loop n rx ops schema 0 [] = Some out"
    and r: "r = \<lparr>valid = (length out = 0), errors = out\<rparr>"
    by (auto simp: validateJSONPatch_def split: option.splits)
  from validateJSONPatch_loop_inv [OF l] show ?thesis
    using r by auto
qed

lemma validOps_cases:
  "opname \<in> set validOps \<Longrightarrow>
   opname = ''add'' \<or> opname = ''remove'' \<or> opname = ''replace'' \<or> opname = ''move'' \<or>
   opname = ''copy'' \<or> opname = ''test''"
  by (simp add: validOps_def)

lemma validateOperation_empty_path:
  assumes op: "get oper ''op'' = JStr opname" and valid_op: "opname \<in> set validOps"
    and path: "get oper ''path'' = JStr ''''"
  shows "\<exists>errs. validateOperation n rx oper schema index = Some errs \<and>
           \<lparr>operation = index,
             error = op_title opname @ '' operation must have a '' @ quoted ''path'' @ '' property''\<rparr>
             \<in> set errs"
proof -
  have "parseInt ''op'' = None"
    by (simp add: parseInt_def is_space_def is_digit_def)
  then obtain kvs where obj: "oper = JObj kvs"
    using get_keyword_object [OF op] by auto
  have pre: "truthy oper" "typeof_object oper" "truthy (get oper ''op'')"
    "get oper ''op'' \<in> set (map JStr validOps)"
    using op valid_op obj validOps_cases [OF valid_op] by auto
  from validOps_cases [OF valid_op] show ?thesis
  proof (elim disjE)
    assume "opname = ''add''"
    then show ?thesis
      using pre op path by (simp add: validateOperation_def validateAdd_def op_title_def)
  next
    assume "opname = ''remove''"
    then show ?thesis
      using pre op path by (simp add: validateOperation_def validateRemove_def op_title_def)
  next
    assume "opname = ''replace''"
    then show ?thesis
      using pre op path by (simp add: validateOperation_def validateReplace_def op_title_def)
  next
    assume "opname = ''move''"
    then show ?thesis
      using pre op path by (simp add: validateOperation_def validateMove_def op_title_def Let_def)
  next
    assume "opname = ''copy''"
    then show ?thesis
      using pre op path by (simp add: validateOperation_def validateCopy_def op_title_def Let_def)
  next
    assume "opname = ''test''"
    then show ?thesis
      using pre op path by (simp add: validateOperation_def validateTest_def op_title_def)
  qed
qed

subsection \<open>Evaluation on concrete inputs\<close>

lemmas pointer_defs =
  validateJSONPointer_def startsWith_def slice_from_def slice_def slice_pos_def unescape_def
  collectAnchors.simps getNextSchema.simps tryObjectTraversal_def tryArrayTraversal_def
  type_list_def spread2_def spread1_def spread_def Let_def

lemmas patch_defs =
  validateJSONPatch_def validateOperation_def validOps_def validateAdd_def validateRemove_def
  validateReplace_def validateMove_def validateCopy_def validateTest_def validateAddPath_def
  checkRequiredProperty_def getSchemaAtPath_def getNextSchemaForToken_def quoted_def

subsection \<open>Required-property lookup\<close>

lemma lastIndexOf_absent: "c \<notin> set s \<Longrightarrow> lastIndexOf s c = - 1"
  by (induction s) (auto simp: Let_def)

lemma checkRequiredProperty_top_level:
  "CHR ''/'' \<notin> set name \<Longrightarrow> checkRequiredProperty n rx (CHR ''/'' # name) schema = Some None"
  by (simp add: checkRequiredProperty_def lastIndexOf_absent Let_def)

subsection \<open>The guard set only grows\<close>

lemma resolveRef_visited_mono:
  assumes IH: "\<And>schema ctx r ctx'. resolveSchema n schema ctx = Some (r, ctx') \<Longrightarrow> visited ctx \<subseteq> visited ctx'"
    and res: "resolveRef n ref ctx cur = Some (r, ctx')"
  shows "visited ctx \<subseteq> visited ctx'"
proof (cases "ref \<in> visited ctx")
  case True
  with res show ?thesis by simp
next
  case False
  define ctx1 where "ctx1 = ctx\<lparr>visited := insert ref (visited ctx)\<rparr>"
  have sub: "visited ctx \<subseteq> visited ctx1"
    by (auto simp: ctx1_def)
  from res False consider
      (rec) target where "resolveSchema n target ctx1 = Some (r, ctx')"
    | (kept) "ctx' = ctx1"
    | (dropped) "ctx' = ctx1\<lparr>visited := visited ctx1 - {ref}\<rparr>"
    by (auto simp: Let_def ctx1_def split: option.splits if_splits)
  then show ?thesis
  proof cases
    case rec
    then show ?thesis using IH [OF rec] sub by blast
  next
    case kept
    then show ?thesis using sub by simp
  next
    case dropped
    then show ?thesis using False by (auto simp: ctx1_def)
  qed
qed

lemma resolve_reduce_visited_mono:
  assumes IH: "\<And>schema ctx r ctx'. resolveSchema n schema ctx = Some (r, ctx') \<Longrightarrow> visited ctx \<subseteq> visited ctx'"
  shows "resolve_reduce n ss acc ctx = Some (r, ctx') \<Longrightarrow> visited ctx \<subseteq> visited ctx'"
proof (induction ss arbitrary: acc ctx)
  case Nil
  then show ?case by simp
next
  case (Cons s ss)
  from Cons.prems obtain r1 c1 where s1: "resolveSchema n s ctx = Some (r1, c1)"
    and s2: "resolve_reduce n ss (mergeSchemas acc r1) c1 = Some (r, ctx')"
    by (auto split: option.splits)
  show ?case
    using IH [OF s1] Cons.IH [OF s2] by blast
qed

lemma resolveSchema_visited_mono:
  "resolveSchema n schema ctx = Some (r, ctx') \<Longrightarrow> visited ctx \<subseteq> visited ctx'"
proof (induction n arbitrary: schema ctx r ctx')
  case 0
  then show ?case by simp
next
  case (Suc n)
  from Suc.prems consider
      (ref) x where "resolveRef n x ctx schema = Some (r, ctx')"
    | (reduce) ss m where "resolve_reduce n ss (JObj []) ctx = Some (m, ctx')"
    | (branch) b where "resolveSchema n b ctx = Some (r, ctx')"
    | (same) "ctx' = ctx"
    by (auto simp del: resolveRef.simps resolve_reduce.simps split: if_splits option.splits)
  then show ?case
  proof cases
    case ref
    show ?thesis
      by (rule resolveRef_visited_mono [where n = n, OF _ ref]) (rule Suc.IH)
  next
    case reduce
    show ?thesis
      by (rule resolve_reduce_visited_mono [where n = n, OF _ reduce]) (rule Suc.IH)
  next
    case branch
    then show ?thesis using Suc.IH by blast
  next
    case same
    then show ?thesis by simp
  qed
qed

lemma startsWith_hash_slash: "startsWith ref ''#/'' \<Longrightarrow> includes_str ref ''/''"
  by (cases ref; cases "tl ref") (auto simp: startsWith_def)

lemma resolveRef_found_keeps_guard:
  assumes "startsWith ref ''#/''"
    and "truthy (walk (root ctx) (split_on (CHR ''/'') (slice_from ref 2)))"
    and "typeof_object (walk (root ctx) (split_on (CHR ''/'') (slice_from ref 2)))"
    and "resolveRef n ref ctx currentSchema = Some (r, ctx')"
  shows "ref \<in> visited ctx'"
proof (cases "ref \<in> visited ctx")
  case True
  with assms(4) show ?thesis by simp
next
  case False
  have "resolveSchema n (walk (root ctx) (split_on (CHR ''/'') (slice_from ref 2)))
          (ctx\<lparr>visited := insert ref (visited ctx)\<rparr>) = Some (r, ctx')"
    using assms False startsWith_hash_slash [OF assms(1)] by (simp add: Let_def)
  from resolveSchema_visited_mono [OF this] show ?thesis by simp
qed

subsection \<open>Arrays by position\<close>

lemma get_array_length: "get (JArr xs) ''length'' = JNum (int (length xs))"
  by (simp add: array_index_length)

lemma get_array_nth: "i < length xs \<Longrightarrow> get (JArr xs) (toString (int i)) = xs ! i"
  by (simp add: array_index_toString)

lemma get_array_first: "get (JArr (x # xs)) ''0'' = x"
  by (simp add: array_index_0)

subsection \<open>The empty schema\<close>

lemma resolveSchema_empty: "resolveSchema (Suc n) (JObj []) ctx = Some (JObj [], ctx)"
  by simp

lemma getNextSchema_empty: "getNextSchema n rx token (JObj []) ctx = Some (JObj [], ctx)"
  by (simp add: getNextSchema.simps tryObjectTraversal_def type_list_def)

lemma validateTokens_empty: "validateTokens (Suc n) rx tokens (JObj []) ctx = Some True"
  by (induction tokens arbitrary: ctx) (simp_all add: getNextSchema_empty)

subsection \<open>A self-reference\<close>

lemma parseInt_ref: "parseInt ''$ref'' = None"
  by (simp add: parseInt_def is_space_def is_digit_def)

lemma self_reference_target:
  assumes "get (get (get r ''$defs'') ''A'') ''$ref'' = JStr ''#/$defs/A''"
  shows "walk r (split_on (CHR ''/'') (slice_from ''#/$defs/A'' 2)) = get (get r ''$defs'') ''A''"
    and "truthy (get (get r ''$defs'') ''A'')"
    and "typeof_object (get (get r ''$defs'') ''A'')"
proof -
  obtain kvs where a: "get (get r ''$defs'') ''A'' = JObj kvs"
    using get_keyword_object [OF assms parseInt_ref] by auto
  then show "truthy (get (get r ''$defs'') ''A'')" "typeof_object (get (get r ''$defs'') ''A'')"
    by simp_all
  have "get (get r ''$defs'') ''A'' \<noteq> JUndefined"
    using a by simp
  then have "truthy (get r ''$defs'')"
    by (cases "get r ''$defs''")
      (auto simp: array_index_def parseInt_def is_space_def is_digit_def)
  then show "walk r (split_on (CHR ''/'') (slice_from ''#/$defs/A'' 2)) = get (get r ''$defs'') ''A''"
    using a by (simp add: slice_from_def slice_pos_def unescape_def Let_def)
qed

subsection \<open>Array dispatch on a canonical index\<close>

lemma tryArrayTraversal_index:
  "tryArrayTraversal (toString (int i)) schema =
     (if get schema ''maxItems'' \<noteq> JUndefined \<and> num_ge (int i) (get schema ''maxItems'')
      then JNull
      else if truthy (get schema ''prefixItems'')
      then
        if num_lt (int i) (get (get schema ''prefixItems'') ''length'')
        then get (get schema ''prefixItems'') (toString (int i))
        else if get schema ''items'' = JBool False then JNull
        else if get schema ''items'' \<noteq> JUndefined \<and>
                typeof_object (get schema ''items'') \<and> \<not> isArray (get schema ''items'')
        then get schema ''items''
        else JObj []
      else if isArray (get schema ''items'')
      then
        if num_lt (int i) (get (get schema ''items'') ''length'')
        then get (get schema ''items'') (toString (int i))
        else if get schema ''additionalItems'' = JBool False then JNull
        else if typeof_object (get schema ''additionalItems'')
        then get schema ''additionalItems''
        else JObj []
      else if get schema ''items'' = JBool False then JNull
      else if get schema ''items'' \<noteq> JUndefined \<and>
              typeof_object (get schema ''items'') \<and> \<not> isArray (get schema ''items'')
      then get schema ''items''
      else JObj [])"
  by (simp add: tryArrayTraversal_def parseInt_toString)

subsection \<open>Merged objects\<close>

lemma map_of_spread:
  "map_of (foldl (\<lambda>acc (k, x). AList.update k x acc) kvs es) k =
     (case map_of (rev es) k of None \<Rightarrow> map_of kvs k | Some v \<Rightarrow> Some v)"
proof (induction es arbitrary: kvs)
  case Nil
  then show ?case by simp
next
  case (Cons e es)
  obtain k' x where e: "e = (k', x)" by (cases e)
  show ?case
    by (simp add: Cons.IH e update_conv' map_add_def split: option.splits)
qed

lemma get_spread2_right:
  assumes "distinct (map fst (entries s2))" and "get s2 k \<noteq> JUndefined"
    and "parseInt k = None" and "k \<noteq> ''length''"
  shows "get (spread2 s1 s2) k = get s2 k"
proof -
  obtain kvs where s2: "s2 = JObj kvs"
    using assms(2-4) by (cases s2) (auto simp: array_index_def)
  then obtain v where v: "map_of kvs k = Some v"
    using assms(2) by (auto split: option.splits)
  have "(k, v) \<in> set kvs"
    using v by (rule map_of_SomeD)
  moreover have "distinct (map fst (rev kvs))"
    using assms(1) s2 by (simp add: rev_map [symmetric])
  ultimately have "map_of (rev kvs) k = Some v"
    by simp
  then show ?thesis
    using s2 v by (simp add: spread2_def spread_def map_of_spread)
qed

lemma isObj_spread2: "isObj (spread2 a b)"
  by (simp add: spread2_def)

lemma isObj_set_prop: "isObj m \<Longrightarrow> isObj (set_prop m k x)"
  by (cases m) auto

lemma get_set_prop: "isObj m \<Longrightarrow> get (set_prop m k x) k' = (if k' = k then x else get m k')"
  by (cases m) (auto simp: update_conv')

lemma mergeSchemas_type:
  assumes t1: "truthy (get s1 ''type'')" and t2: "truthy (get s2 ''type'')"
    and d2: "distinct (map fst (entries s2))"
  shows "get (mergeSchemas s1 s2) ''type'' =
           (let commonTypes = filter (\<lambda>t. t \<in> set (type_list (get s2 ''type'')))
                                (type_list (get s1 ''type''))
            in if commonTypes = [] then get s2 ''type''
               else if length commonTypes = 1 then commonTypes ! 0
               else JArr commonTypes)"
proof -
  define common where
    "common = filter (\<lambda>t. t \<in> set (type_list (get s2 ''type''))) (type_list (get s1 ''type''))"
  define m0 where "m0 = spread2 s1 s2"
  define m1 where
    "m1 = (if truthy (get s1 ''properties'') \<or> truthy (get s2 ''properties'')
           then set_prop m0 ''properties'' (spread2 (get s1 ''properties'') (get s2 ''properties''))
           else m0)"
  define m2 where
    "m2 = (if truthy (get s1 ''patternProperties'') \<or> truthy (get s2 ''patternProperties'')
           then set_prop m1 ''patternProperties''
                  (spread2 (get s1 ''patternProperties'') (get s2 ''patternProperties''))
           else m1)"
  define m3 where
    "m3 = (if truthy (get s1 ''required'') \<or> truthy (get s2 ''required'')
           then set_prop m2 ''required''
                  (JArr (dedup []
                     (elems (if truthy (get s1 ''required'') then get s1 ''required'' else JArr []) @
                      elems (if truthy (get s2 ''required'') then get s2 ''required'' else JArr []))))
           else m2)"
  define m4 where
    "m4 = (if 0 < length common
           then set_prop m3 ''type'' (if length common = 1 then common ! 0 else JArr common)
           else m3)"
  define m5 where
    "m5 = (if get s1 ''minProperties'' \<noteq> JUndefined \<or> get s2 ''minProperties'' \<noteq> JUndefined
           then set_prop m4 ''minProperties''
                  (JNum (max (num_or_zero (get s1 ''minProperties''))
                             (num_or_zero (get s2 ''minProperties''))))
           else m4)"
  have unfolded: "mergeSchemas s1 s2 =
      (if get s1 ''maxProperties'' \<noteq> JUndefined \<or> get s2 ''maxProperties'' \<noteq> JUndefined
       then (case min_ext (num_or_infinity (get s1 ''maxProperties''))
                          (num_or_infinity (get s2 ''maxProperties'')) of
               None \<Rightarrow> m5
             | Some m \<Rightarrow> set_prop m5 ''maxProperties'' (JNum m))
       else m5)"
    unfolding mergeSchemas_def Let_def m5_def m4_def m3_def m2_def m1_def m0_def common_def
    using t1 t2 by (simp only: simp_thms if_True)
  have "parseInt ''type'' = None"
    by (simp add: parseInt_def is_space_def is_digit_def)
  moreover have "get s2 ''type'' \<noteq> JUndefined"
    using t2 by auto
  ultimately have g0: "get m0 ''type'' = get s2 ''type''"
    unfolding m0_def using get_spread2_right [OF d2] by simp
  have o0: "isObj m0"
    by (simp add: m0_def isObj_spread2)
  have o1: "isObj m1" and g1: "get m1 ''type'' = get m0 ''type''"
    unfolding m1_def using o0 by (simp_all add: get_set_prop isObj_set_prop del: get.simps)
  have o2: "isObj m2" and g2: "get m2 ''type'' = get m1 ''type''"
    unfolding m2_def using o1 by (simp_all add: get_set_prop isObj_set_prop del: get.simps)
  have o3: "isObj m3" and g3: "get m3 ''type'' = get m2 ''type''"
    unfolding m3_def using o2 by (simp_all add: get_set_prop isObj_set_prop del: get.simps)
  have o4: "isObj m4"
    unfolding m4_def using o3 by (simp add: isObj_set_prop)
  have g4: "get m4 ''type'' =
      (if common = [] then get s2 ''type''
       else if length common = 1 then common ! 0 else JArr common)"
    unfolding m4_def using o3 g3 g2 g1 g0 by (simp add: get_set_prop del: get.simps)
  have o5: "isObj m5" and g5: "get m5 ''type'' = get m4 ''type''"
    unfolding m5_def using o4 by (simp_all add: get_set_prop isObj_set_prop del: get.simps)
  have "get (mergeSchemas s1 s2) ''type'' = get m5 ''type''"
    unfolding unfolded using o5 by (simp add: get_set_prop split: option.splits del: get.simps)
  then show ?thesis
    using g5 g4 by (simp add: common_def Let_def del: get.simps)
qed

subsection \<open>Errors carry the index of their operation\<close>

lemma validateAdd_tagged:
  "validateAdd n rx oper schema i = Some es \<Longrightarrow> e \<in> set es \<Longrightarrow> operation e = i"
  by (auto simp: validateAdd_def split: if_splits option.splits prod.splits)

lemma validateRemove_tagged:
  "validateRemove n rx oper schema i = Some es \<Longrightarrow> e \<in> set es \<Longrightarrow> operation e = i"
  by (auto simp: validateRemove_def Let_def split: if_splits option.splits prod.splits)

lemma validateReplace_tagged:
  "validateReplace n rx oper schema i = Some es \<Longrightarrow> e \<in> set es \<Longrightarrow> operation e = i"
  by (auto simp: validateReplace_def Let_def split: if_splits option.splits prod.splits)

lemma validateMove_tagged:
  "validateMove n rx oper schema i = Some es \<Longrightarrow> e \<in> set es \<Longrightarrow> operation e = i"
  by (auto simp: validateMove_def Let_def split: if_splits option.splits prod.splits)

lemma validateCopy_tagged:
  "validateCopy n rx oper schema i = Some es \<Longrightarrow> e \<in> set es \<Longrightarrow> operation e = i"
  by (auto simp: validateCopy_def Let_def split: if_splits option.splits prod.splits)

lemma validateTest_tagged:
  "validateTest n rx oper schema i = Some es \<Longrightarrow> e \<in> set es \<Longrightarrow> operation e = i"
  by (auto simp: validateTest_def Let_def split: if_splits option.splits prod.splits)

lemma if_SomeE:
  assumes "(if c then a else b) = Some es"
  obtains "a = Some es" | "b = Some es"
  using assms by (cases c) auto

lemma validateOperation_tagged:
  assumes "validateOperation n rx oper schema i = Some es" and "e \<in> set es"
  shows "operation e = i"
  using assms unfolding validateOperation_def
  by (elim if_SomeE)
    (auto dest: validateAdd_tagged validateRemove_tagged validateReplace_tagged
       validateMove_tagged validateCopy_tagged validateTest_tagged)

lemma validateJSONPatch_accumulates:
  assumes "\<forall>k < length ops. validateOperation n rx (ops ! k) schema (int k) = Some (es k)"
  shows "validateJSONPatch n rx (JArr ops) schema
           = Some \<lparr>valid = (concat (map es [0..<length ops]) = []),
                    errors = concat (map es [0..<length ops])\<rparr>"
proof -
  have "\<forall>k < length ops. validateOperation n rx (ops ! k) schema (0 + int k) = Some (es k)"
    using assms by simp
  from validateJSONPatch_loop_Some [OF this, of "[]"]
  show ?thesis by (simp add: validateJSONPatch_def)
qed

subsection \<open>Copies of an object\<close>

lemma spread_distinct:
  "distinct (map fst (acc @ kvs)) \<Longrightarrow>
   foldl (\<lambda>acc (k, x). AList.update k x acc) acc kvs = acc @ kvs"
proof (induction kvs arbitrary: acc)
  case Nil
  then show ?case by simp
next
  case (Cons e kvs)
  obtain k x where e: "e = (k, x)" by (cases e)
  have "k \<notin> fst ` set acc"
    using Cons.prems e by auto
  then have u: "AList.update k x acc = acc @ [(k, x)]"
    by (induction acc) auto
  have "distinct (map fst ((acc @ [(k, x)]) @ kvs))"
    using Cons.prems e by simp
  from Cons.IH [OF this] show ?case
    by (simp add: e u)
qed

lemma spread1_object: "distinct (map fst kvs) \<Longrightarrow> spread1 (JObj kvs) = JObj kvs"
  using spread_distinct [of "[]" kvs] by (simp add: spread1_def spread_def)

lemma get_update:
  "get (JObj (AList.update k v kvs)) k' = (if k' = k then v else get (JObj kvs) k')"
  by (simp add: update_conv')

lemma with_type_object:
  assumes "distinct (map fst kvs)"
  shows "with_type (JObj kvs) t = JObj (AList.update ''type'' t kvs)"
  using assms by (simp add: with_type_def spread1_object)

lemma get_with_type_other:
  assumes "distinct (map fst kvs)" and "k \<noteq> ''type''"
  shows "get (with_type (JObj kvs) t) k = get (JObj kvs) k"
  using assms by (simp add: with_type_object update_conv')

subsection \<open>A closed object rejects an undeclared name\<close>

lemma tryArrayTraversal_b: "tryArrayTraversal ''b'' schema = JNull"
  by (simp add: tryArrayTraversal_def parseInt_def is_space_def is_digit_def)

lemma getNextSchema_types_null:
  assumes "\<And>t c. t \<in> set ts \<Longrightarrow> getNextSchema n rx token (with_type schema t) c = Some (JNull, c)"
  shows "getNextSchema_types n rx token schema ts ctx = Some (JNull, ctx)"
  using assms by (induction ts arbitrary: ctx) simp_all

lemma closed_object_rejects_b:
  assumes "distinct (map fst kvs)"
    and "get (JObj kvs) ''additionalProperties'' = JBool False"
    and "get (JObj kvs) ''properties'' = JObj [(''a'', sa)]"
    and "\<not> truthy (get (JObj kvs) ''patternProperties'')"
    and "\<not> truthy (get (JObj kvs) ''propertyNames'')"
  shows "getNextSchema n rx ''b'' (JObj kvs) ctx = Some (JNull, ctx)"
  using assms
proof (induction "size (get (JObj kvs) ''type'')" arbitrary: kvs ctx rule: less_induct)
  case less
  let ?s = "JObj kvs"
  have obj: "tryObjectTraversal n rx ''b'' ?s ctx = Some (JNull, ctx)"
    using less.prems(2-5) by (simp add: tryObjectTraversal_def del: get.simps)
  have loop: "getNextSchema_types n rx ''b'' ?s ts ctx = Some (JNull, ctx)"
    if ts: "get ?s ''type'' = JArr ts" for ts
  proof (rule getNextSchema_types_null)
    fix t c assume t: "t \<in> set ts"
    have wt: "with_type ?s t = JObj (AList.update ''type'' t kvs)"
      using less.prems(1) by (rule with_type_object)
    have sz: "size (get (JObj (AList.update ''type'' t kvs)) ''type'') < size (get ?s ''type'')"
      using size_list_estimation' [OF t, of "size t" size]
      by (simp add: ts get_update del: get.simps)
    have d: "distinct (map fst (AList.update ''type'' t kvs))"
      using less.prems(1) by (simp add: distinct_update)
    have keep: "get (JObj (AList.update ''type'' t kvs)) k = get ?s k" if "k \<noteq> ''type''" for k
      using that by (simp add: get_update del: get.simps)
    show "getNextSchema n rx ''b'' (with_type ?s t) c = Some (JNull, c)"
      unfolding wt
      using less.prems(2-5)
      by (intro less.hyps [OF sz d]) (simp_all only: keep [of "''additionalProperties''"]
          keep [of "''properties''"] keep [of "''patternProperties''"] keep [of "''propertyNames''"]
          list.inject char.inject simp_thms not_False_eq_True)
  qed
  show ?case
  proof (cases "get ?s ''type''")
    case (JArr ts)
    then show ?thesis
      using obj loop [OF JArr] less.prems(3)
      by (subst getNextSchema.simps) (simp add: tryArrayTraversal_b Let_def del: get.simps)
  qed (use obj less.prems(3) in \<open>subst getNextSchema.simps, simp add: tryArrayTraversal_b Let_def del: get.simps\<close>)+
qed

lemma get_defined_object:
  assumes "get v k \<noteq> JUndefined" and "parseInt k = None" and "k \<noteq> ''length''"
  shows "\<exists>kvs. v = JObj kvs"
  using assms by (cases v) (auto simp: array_index_def)

lemma resolveSchema_plain:
  "plain_schema s \<Longrightarrow>
   resolveSchema (Suc n) s ctx =
     Some (if truthy (get s ''not'') then set_prop (spread1 s) ''not'' JUndefined else s, ctx)"
  by (simp add: plain_schema_def del: get.simps)

subsection \<open>Index tokens and array schemas\<close>

lemma split_on_absent: "c \<notin> set s \<Longrightarrow> split_on c s = [s]"
  by (induction s) auto

lemma replace_pair_absent: "a \<notin> set s \<Longrightarrow> replace_pair a b r s = s"
  by (induction a b r s rule: replace_pair.induct) auto

lemma unescape_absent: "CHR ''~'' \<notin> set s \<Longrightarrow> unescape s = s"
  by (simp add: unescape_def replace_pair_absent)

lemma index_pointer_tokens:
  "map unescape (split_on (CHR ''/'') (slice_from (CHR ''/'' # toString (int i)) 1)) = [toString (int i)]"
proof -
  have d: "is_digit c" if "c \<in> set (toString (int i))" for c
    using that digits_all_digit [of c i] by (simp add: toString_def)
  have "CHR ''/'' \<notin> set (toString (int i))" "CHR ''~'' \<notin> set (toString (int i))"
    using d by (auto simp: is_digit_def)
  then show ?thesis
    by (simp add: slice_from_def slice_pos_def split_on_absent unescape_absent)
qed

lemma index_pointer_shape:
  "CHR ''/'' # toString (int i) \<noteq> ''''" "CHR ''/'' # toString (int i) \<noteq> ''/''"
  "startsWith (CHR ''/'' # toString (int i)) ''/''"
  using digits_nonempty [of i] by (simp_all add: toString_def startsWith_def)

lemma getNextSchema_array_only:
  assumes "get schema ''type'' = JStr ''array''" and "\<not> truthy (get schema ''properties'')"
    and "\<not> truthy (get schema ''patternProperties'')"
  shows "getNextSchema n rx token schema ctx =
           Some (if truthy (tryArrayTraversal token schema)
                 then tryArrayTraversal token schema else JNull, ctx)"
  using assms by (simp add: getNextSchema.simps type_list_def Let_def del: get.simps)

lemma plain_schema_resolved:
  assumes d: "distinct (map fst kvs)" and plain: "plain_schema (JObj kvs)"
  shows "\<exists>kvs'. (\<forall>n ctx. resolveSchema (Suc n) (JObj kvs) ctx = Some (JObj kvs', ctx)) \<and>
           (\<forall>k. k \<noteq> ''not'' \<longrightarrow> get (JObj kvs') k = get (JObj kvs) k)"
proof -
  define kvs' where
    "kvs' = (if truthy (get (JObj kvs) ''not'') then AList.update ''not'' JUndefined kvs else kvs)"
  have "resolveSchema (Suc n) (JObj kvs) ctx = Some (JObj kvs', ctx)" for n ctx
    using resolveSchema_plain [OF plain, of n ctx] d
    by (simp add: kvs'_def spread1_object del: resolveSchema.simps get.simps)
  moreover have "get (JObj kvs') k = get (JObj kvs) k" if "k \<noteq> ''not''" for k
    using that by (simp add: kvs'_def get_update del: get.simps)
  ultimately show ?thesis
    by blast
qed

lemma index_step_of_plain_array_schema:
  assumes d: "distinct (map fst kvs)" and plain: "plain_schema (JObj kvs)"
    and array: "get (JObj kvs) ''type'' = JStr ''array''"
    and no_props: "\<not> truthy (get (JObj kvs) ''properties'')"
    and no_patterns: "\<not> truthy (get (JObj kvs) ''patternProperties'')"
  shows "validateJSONPointer (Suc n) rx (CHR ''/'' # toString (int i)) (JObj kvs) =
           Some (truthy (tryArrayTraversal (toString (int i)) (JObj kvs)))"
proof -
  from plain_schema_resolved [OF d plain]
  obtain kvs' where resolved: "\<forall>n ctx. resolveSchema (Suc n) (JObj kvs) ctx = Some (JObj kvs', ctx)"
    and keep0: "\<forall>k. k \<noteq> ''not'' \<longrightarrow> get (JObj kvs') k = get (JObj kvs) k"
    by blast
  have keep: "get (JObj kvs') k = get (JObj kvs) k" if "k \<noteq> ''not''" for k
    using keep0 that by blast
  have open_root: "get (JObj kvs') ''const'' = JUndefined" "get (JObj kvs') ''enum'' = JUndefined"
    using plain by (simp_all add: keep plain_schema_def del: get.simps)
  have same: "tryArrayTraversal (toString (int i)) (JObj kvs') = tryArrayTraversal (toString (int i)) (JObj kvs)"
    by (simp add: tryArrayTraversal_index keep del: get.simps)
  have hyps: "get (JObj kvs') ''type'' = JStr ''array''" "\<not> truthy (get (JObj kvs') ''properties'')"
    "\<not> truthy (get (JObj kvs') ''patternProperties'')"
    using array no_props no_patterns by (simp_all add: keep del: get.simps)
  have step: "getNextSchema (Suc n) rx (toString (int i)) (JObj kvs') ctx =
      Some (if truthy (tryArrayTraversal (toString (int i)) (JObj kvs))
            then tryArrayTraversal (toString (int i)) (JObj kvs) else JNull, ctx)" for ctx
    by (simp only: getNextSchema_array_only [OF hyps] same)
  have r: "resolveSchema (Suc n) (JObj kvs) ctx = Some (JObj kvs', ctx)" for ctx
    using resolved by blast
  have "validateTokens (Suc n) rx [toString (int i)] (JObj kvs) ctx =
          Some (truthy (tryArrayTraversal (toString (int i)) (JObj kvs)))" for ctx
    using open_root
    by (simp add: r step del: resolveSchema.simps get.simps)
  then show ?thesis
    using index_pointer_shape [of i]
    by (simp add: validateJSONPointer_def index_pointer_tokens Let_def
          del: validateTokens.simps)
qed

section \<open>The claims\<close>

text \<open>
  In the theorems below \<open>n\<close> is the depth allowed to schema resolution and \<open>rx\<close> the
  regular expression engine; a statement for \<open>Suc n\<close> holds for every depth of at least
  one.
\<close>

text \<open>
  C1. Removing a property that the root schema lists in \<open>required\<close> is not reported:
  for \<open>[{op: "remove", path: "/name"}]\<close> and the schema \<open>{required: ["name"]}\<close> the code
  returns \<open>valid: true\<close> and no error, where the claim expects one error and
  \<open>valid: false\<close>. For a path with a single segment \<open>checkRequiredProperty\<close> returns
  \<open>null\<close> before it looks at any schema (\<open>lastSlash <= 0\<close>), so no schema makes the
  operation report the removal of a required property, and the same holds for the
  \<open>from\<close> side of a move. One level down the removal is reported when the parent
  schema lists the property itself, and is not when the parent schema is a reference to
  the schema that lists it: the lookup does not resolve the schema it arrives at.
\<close>

theorem C1_required_removal_unreported:
  "validateJSONPatch (Suc n) rx
     (JArr [JObj [(''op'', JStr ''remove''), (''path'', JStr ''/name'')]])
     (JObj [(''required'', JArr [JStr ''name''])])
     = Some \<lparr>valid = True, errors = []\<rparr> \<and>
   checkRequiredProperty n rx ''/name'' schema = Some None \<and>
   validateJSONPatch (Suc n) rx
     (JArr [JObj [(''op'', JStr ''move''), (''from'', JStr ''/name''), (''path'', JStr ''/other'')]])
     (JObj [(''required'', JArr [JStr ''name''])])
     = Some \<lparr>valid = True, errors = []\<rparr> \<and>
   validateJSONPatch (Suc n) rx
     (JArr [JObj [(''op'', JStr ''remove''), (''path'', JStr ''/a/name'')]])
     (JObj [(''properties'', JObj [(''a'', JObj [(''required'', JArr [JStr ''name''])])])])
     = Some \<lparr>valid = False,
              errors = [\<lparr>operation = 0,
                         error = ''Cannot remove required property '' @ quoted ''name''\<rparr>]\<rparr> \<and>
   validateJSONPatch (Suc (Suc n)) rx
     (JArr [JObj [(''op'', JStr ''remove''), (''path'', JStr ''/a/name'')]])
     (JObj [(''properties'', JObj [(''a'', JObj [(''$ref'', JStr ''#/$defs/A'')])]),
            (''$defs'', JObj [(''A'', JObj [(''required'', JArr [JStr ''name''])])])])
     = Some \<lparr>valid = True, errors = []\<rparr>"
proof (intro conjI)
  show "validateJSONPatch (Suc n) rx
     (JArr [JObj [(''op'', JStr ''remove''), (''path'', JStr ''/name'')]])
     (JObj [(''required'', JArr [JStr ''name''])])
     = Some \<lparr>valid = True, errors = []\<rparr>"
    by (simp add: patch_defs pointer_defs)
  show "checkRequiredProperty n rx ''/name'' schema = Some None"
    by (simp add: checkRequiredProperty_top_level)
  show "validateJSONPatch (Suc n) rx
     (JArr [JObj [(''op'', JStr ''move''), (''from'', JStr ''/name''), (''path'', JStr ''/other'')]])
     (JObj [(''required'', JArr [JStr ''name''])])
     = Some \<lparr>valid = True, errors = []\<rparr>"
    by (simp add: patch_defs pointer_defs parseInt_def is_space_def is_digit_def)
  show "validateJSONPatch (Suc n) rx
     (JArr [JObj [(''op'', JStr ''remove''), (''path'', JStr ''/a/name'')]])
     (JObj [(''properties'', JObj [(''a'', JObj [(''required'', JArr [JStr ''name''])])])])
     = Some \<lparr>valid = False,
              errors = [\<lparr>operation = 0,
                         error = ''Cannot remove required property '' @ quoted ''name''\<rparr>]\<rparr>"
    by (simp add: patch_defs pointer_defs)
  show "validateJSONPatch (Suc (Suc n)) rx
     (JArr [JObj [(''op'', JStr ''remove''), (''path'', JStr ''/a/name'')]])
     (JObj [(''properties'', JObj [(''a'', JObj [(''$ref'', JStr ''#/$defs/A'')])]),
            (''$defs'', JObj [(''A'', JObj [(''required'', JArr [JStr ''name''])])])])
     = Some \<lparr>valid = True, errors = []\<rparr>"
    by (simp add: patch_defs pointer_defs)
qed

theorem C1_required_removal_unreported_witness:
  "validateJSONPatch (Suc 0) (\<lambda>p t. None)
     (JArr [JObj [(''op'', JStr ''remove''), (''path'', JStr ''/name'')]])
     (JObj [(''required'', JArr [JStr ''name''])])
     = Some \<lparr>valid = True, errors = []\<rparr>"
  using C1_required_removal_unreported [of 0 "\<lambda>p t. None" "JObj []"] by blast

text \<open>
  C2. A move into a child of its source is not reported: for
  \<open>[{op: "move", from: "/a", path: "/a/b"}]\<close> no schema makes the code emit the error
  that the destination is a child of the source, and for the schema \<open>{}\<close> the result is
  \<open>valid: true\<close> with no error. The code tests \<open>from.startsWith(path + "/")\<close>, so the
  error is emitted for the opposite move, from \<open>/a/b\<close> to \<open>/a\<close>.
\<close>

theorem C2_move_into_child_unreported:
  "(validateJSONPatch n rx
      (JArr [JObj [(''op'', JStr ''move''), (''from'', JStr ''/a''), (''path'', JStr ''/a/b'')]])
      schema = Some res \<longrightarrow>
    ''Cannot move to a location that is a child of the source'' \<notin> error ` set (errors res)) \<and>
   validateJSONPatch (Suc n) rx
     (JArr [JObj [(''op'', JStr ''move''), (''from'', JStr ''/a''), (''path'', JStr ''/a/b'')]])
     (JObj []) = Some \<lparr>valid = True, errors = []\<rparr> \<and>
   validateJSONPatch (Suc n) rx
     (JArr [JObj [(''op'', JStr ''move''), (''from'', JStr ''/a/b''), (''path'', JStr ''/a'')]])
     (JObj [])
     = Some \<lparr>valid = False,
              errors = [\<lparr>operation = 0,
                         error = ''Cannot move to a location that is a child of the source''\<rparr>]\<rparr>"
proof (intro conjI impI)
  assume "validateJSONPatch n rx
      (JArr [JObj [(''op'', JStr ''move''), (''from'', JStr ''/a''), (''path'', JStr ''/a/b'')]])
      schema = Some res"
  then show "''Cannot move to a location that is a child of the source'' \<notin> error ` set (errors res)"
    by (auto simp: validateJSONPatch_def validateOperation_def validOps_def validateMove_def
          validateAddPath_def checkRequiredProperty_def quoted_def Let_def startsWith_def
          slice_def slice_from_def slice_pos_def parseInt_def is_space_def is_digit_def
        split: option.splits if_splits)
next
  show "validateJSONPatch (Suc n) rx
     (JArr [JObj [(''op'', JStr ''move''), (''from'', JStr ''/a''), (''path'', JStr ''/a/b'')]])
     (JObj []) = Some \<lparr>valid = True, errors = []\<rparr>"
    by (simp add: patch_defs pointer_defs parseInt_def is_space_def is_digit_def)
next
  show "validateJSONPatch (Suc n) rx
     (JArr [JObj [(''op'', JStr ''move''), (''from'', JStr ''/a/b''), (''path'', JStr ''/a'')]])
     (JObj [])
     = Some \<lparr>valid = False,
              errors = [\<lparr>operation = 0,
                         error = ''Cannot move to a location that is a child of the source''\<rparr>]\<rparr>"
    by (simp add: patch_defs pointer_defs parseInt_def is_space_def is_digit_def)
qed

theorem C2_move_into_child_unreported_witness:
  "validateJSONPatch (Suc 0) (\<lambda>p t. None)
     (JArr [JObj [(''op'', JStr ''move''), (''from'', JStr ''/a''), (''path'', JStr ''/a/b'')]])
     (JObj []) = Some \<lparr>valid = True, errors = []\<rparr>"
  using C2_move_into_child_unreported [of 0 "\<lambda>p t. None" "JObj []"] by blast

text \<open>
  C3. The reference is not removed from the guard set when a target was found: the
  code returns the resolved target straight away, and only the path that found no
  target reaches \<open>context.visited.delete(ref)\<close>. Resolving \<open>#/$defs/node\<close> in the
  linked list schema leaves the reference in \<open>visited\<close>, so the second traversal step
  that meets the same reference gets \<open>{}\<close>: the pointer \<open>/next/bogus\<close> is accepted
  although every node forbids \<open>bogus\<close>, as the rejection of \<open>/bogus\<close> shows.
\<close>

theorem C3_guard_kept_after_resolution:
  "resolveRef (Suc n) ''#/$defs/node''
     \<lparr>root = linked_list_schema, definitions = JObj [], visited = {}, anchors = []\<rparr>
     linked_list_schema
   = Some (get (get linked_list_schema ''$defs'') ''node'',
           \<lparr>root = linked_list_schema, definitions = JObj [],
             visited = {''#/$defs/node''}, anchors = []\<rparr>) \<and>
   validateJSONPointer (Suc (Suc n)) rx ''/bogus'' linked_list_schema = Some False \<and>
   validateJSONPointer (Suc (Suc n)) rx ''/next/bogus'' linked_list_schema = Some True"
  by (simp add: linked_list_schema_def pointer_defs)

theorem C3_guard_kept_after_resolution_witness:
  "validateJSONPointer (Suc (Suc 0)) (\<lambda>p t. None) ''/next/bogus'' linked_list_schema = Some True"
  using C3_guard_kept_after_resolution [of 0 "\<lambda>p t. None"] by blast

text \<open>
  C4, as stated, fails: merging \<open>{type: "string"}\<close> and \<open>{type: "number"}\<close>, whose types
  have nothing in common, gives a schema that still has the \<open>type\<close> keyword, with the
  value of the second operand, also as the result of resolving an \<open>allOf\<close> of the two.
\<close>

theorem C4_empty_intersection_counterexample:
  "commonTypes (JObj [(''type'', JStr ''string'')]) (JObj [(''type'', JStr ''number'')]) = [] \<and>
   has_key ''type'' (mergeSchemas (JObj [(''type'', JStr ''string'')]) (JObj [(''type'', JStr ''number'')])) \<and>
   get (mergeSchemas (JObj [(''type'', JStr ''string'')]) (JObj [(''type'', JStr ''number'')])) ''type''
     = JStr ''number'' \<and>
   resolveSchema (Suc (Suc 0))
     (JObj [(''allOf'', JArr [JObj [(''type'', JStr ''string'')], JObj [(''type'', JStr ''number'')]])])
     \<lparr>root = JObj [], definitions = JObj [], visited = {}, anchors = []\<rparr>
     = Some (JObj [(''allOf'', JUndefined), (''type'', JStr ''number'')],
             \<lparr>root = JObj [], definitions = JObj [], visited = {}, anchors = []\<rparr>)"
  by (simp add: commonTypes_def mergeSchemas_def type_list_def spread2_def spread_def Let_def)

text \<open>
  C4 (amended). For every pair of schemas that both declare a \<open>type\<close>: when their types
  have nothing in common the merged schema keeps the \<open>type\<close> of the second operand
  unchanged; otherwise its \<open>type\<close> is the common types, the single one as a string and
  several as an array in the order of the first operand, and these are exactly the
  intersection of the two type sets.
\<close>

theorem C4_merge_type:
  assumes "truthy (get s1 ''type'')" and "truthy (get s2 ''type'')"
    and "distinct (map fst (entries s2))"
  shows "get (mergeSchemas s1 s2) ''type'' =
           (if commonTypes s1 s2 = [] then get s2 ''type''
            else if length (commonTypes s1 s2) = 1 then commonTypes s1 s2 ! 0
            else JArr (commonTypes s1 s2)) \<and>
         set (commonTypes s1 s2) = set (type_list (get s1 ''type'')) \<inter> set (type_list (get s2 ''type''))"
proof
  show "get (mergeSchemas s1 s2) ''type'' =
           (if commonTypes s1 s2 = [] then get s2 ''type''
            else if length (commonTypes s1 s2) = 1 then commonTypes s1 s2 ! 0
            else JArr (commonTypes s1 s2))"
    using mergeSchemas_type [OF assms] by (simp add: commonTypes_def Let_def)
  show "set (commonTypes s1 s2) = set (type_list (get s1 ''type'')) \<inter> set (type_list (get s2 ''type''))"
    by (auto simp: commonTypes_def)
qed

theorem C4_merge_type_witness:
  "get (mergeSchemas (JObj [(''type'', JArr [JStr ''string'', JStr ''number''])])
                     (JObj [(''type'', JArr [JStr ''number'', JStr ''null''])])) ''type''
     = JStr ''number'' \<and>
   get (mergeSchemas (JObj [(''type'', JStr ''string'')]) (JObj [(''type'', JStr ''number'')])) ''type''
     = JStr ''number''"
  using C4_merge_type [of "JObj [(''type'', JArr [JStr ''string'', JStr ''number''])]"
      "JObj [(''type'', JArr [JStr ''number'', JStr ''null''])]"]
    C4_merge_type [of "JObj [(''type'', JStr ''string'')]" "JObj [(''type'', JStr ''number'')]"]
  by (simp add: commonTypes_def type_list_def)

text \<open>
  C5. Where \<open>$defs/A\<close> of the root schema is a reference to itself, resolving any node
  that refers to \<open>#/$defs/A\<close> returns the empty schema \<open>{}\<close> within two nested calls
  of \<open>resolveSchema\<close>, whatever the guard set holds on entry, and every traversal that
  continues from such a node ends and accepts the remaining tokens.
\<close>

theorem C5_self_reference_resolves_to_empty:
  assumes self: "get (get (get (root ctx) ''$defs'') ''A'') ''$ref'' = JStr ''#/$defs/A''"
    and node: "get node ''$ref'' = JStr ''#/$defs/A''"
  shows "resolveSchema (Suc (Suc n)) node ctx
           = Some (JObj [], ctx\<lparr>visited := insert ''#/$defs/A'' (visited ctx)\<rparr>) \<and>
         validateTokens (Suc (Suc n)) rx tokens node ctx = Some True"
proof -
  let ?ref = "''#/$defs/A''"
  let ?ctx1 = "ctx\<lparr>visited := insert ?ref (visited ctx)\<rparr>"
  have target: "walk (root ?ctx1) (split_on (CHR ''/'') (slice_from ?ref 2))
                  = get (get (root ctx) ''$defs'') ''A''"
    using self_reference_target(1) [OF self] by simp
  have inner: "resolveSchema (Suc n) (get (get (root ctx) ''$defs'') ''A'') ?ctx1 = Some (JObj [], ?ctx1)"
    using self by simp
  have "resolveRef (Suc n) ?ref ctx node = Some (JObj [], ?ctx1)"
  proof (cases "?ref \<in> visited ctx")
    case True
    then have "?ctx1 = ctx" by (simp add: insert_absorb)
    with True show ?thesis by simp
  next
    case False
    have "startsWith ?ref ''#/''" "includes_str ?ref ''/''"
      by (simp_all add: startsWith_def)
    then show ?thesis
      using False target inner self_reference_target(2,3) [OF self]
      by (simp add: Let_def del: resolveSchema.simps)
  qed
  then have res: "resolveSchema (Suc (Suc n)) node ctx = Some (JObj [], ?ctx1)"
    using node by (simp del: resolveRef.simps)
  have "validateTokens (Suc (Suc n)) rx tokens node ctx = Some True"
  proof (cases tokens)
    case Nil
    then show ?thesis by simp
  next
    case (Cons token rest)
    then show ?thesis
      using res by (simp add: getNextSchema_empty validateTokens_empty del: resolveSchema.simps)
  qed
  with res show ?thesis by simp
qed

theorem C5_self_reference_resolves_to_empty_witness:
  "resolveSchema (Suc (Suc 0)) (JObj [(''$ref'', JStr ''#/$defs/A'')])
     \<lparr>root = JObj [(''properties'', JObj [(''x'', JObj [(''$ref'', JStr ''#/$defs/A'')])]),
                    (''$defs'', JObj [(''A'', JObj [(''$ref'', JStr ''#/$defs/A'')])])],
       definitions = JObj [], visited = {}, anchors = []\<rparr>
   = Some (JObj [],
       \<lparr>root = JObj [(''properties'', JObj [(''x'', JObj [(''$ref'', JStr ''#/$defs/A'')])]),
                    (''$defs'', JObj [(''A'', JObj [(''$ref'', JStr ''#/$defs/A'')])])],
       definitions = JObj [], visited = {''#/$defs/A''}, anchors = []\<rparr>) \<and>
   validateTokens (Suc (Suc 0)) (\<lambda>p t. None) [''y'', ''z''] (JObj [(''$ref'', JStr ''#/$defs/A'')])
     \<lparr>root = JObj [(''properties'', JObj [(''x'', JObj [(''$ref'', JStr ''#/$defs/A'')])]),
                    (''$defs'', JObj [(''A'', JObj [(''$ref'', JStr ''#/$defs/A'')])])],
       definitions = JObj [], visited = {}, anchors = []\<rparr>
   = Some True"
  using C5_self_reference_resolves_to_empty [of
      "\<lparr>root = JObj [(''properties'', JObj [(''x'', JObj [(''$ref'', JStr ''#/$defs/A'')])]),
                    (''$defs'', JObj [(''A'', JObj [(''$ref'', JStr ''#/$defs/A'')])])],
       definitions = JObj [], visited = {}, anchors = []\<rparr>"
      "JObj [(''$ref'', JStr ''#/$defs/A'')]" 0 "\<lambda>p t. None" "[''y'', ''z'']"]
  by (simp del: resolveSchema.simps resolveRef.simps validateTokens.simps)

text \<open>
  C6. For a node with no \<open>$ref\<close>, \<open>$dynamicRef\<close> or \<open>allOf\<close> and a non-empty
  \<open>anyOf\<close> (or, with \<open>anyOf\<close> absent or empty, a non-empty \<open>oneOf\<close>), resolving the
  node is resolving the first branch: the result is that of the first branch in the same
  context, so the other branches and the node's own keywords do not enter it.
\<close>

theorem C6_first_branch_only:
  assumes "\<not> truthy (get node ''$ref'')" and "\<not> truthy (get node ''$dynamicRef'')"
    and "\<not> truthy (get node ''allOf'')"
    and "get node ''anyOf'' = JArr (b # bs) \<or>
         ((\<not> truthy (get node ''anyOf'') \<or> get node ''anyOf'' = JArr []) \<and>
          get node ''oneOf'' = JArr (b # bs))"
  shows "resolveSchema (Suc n) node ctx = resolveSchema n b ctx"
  using assms by (auto simp: get_array_length get_array_first simp del: get.simps)

theorem C6_first_branch_only_witness:
  "resolveSchema (Suc (Suc 0))
     (JObj [(''title'', JStr ''t''), (''properties'', JObj [(''x'', JObj [])]),
            (''anyOf'', JArr [JObj [(''type'', JStr ''string'')], JObj [(''type'', JStr ''number'')]])])
     \<lparr>root = JObj [], definitions = JObj [], visited = {}, anchors = []\<rparr>
   = Some (JObj [(''type'', JStr ''string'')],
           \<lparr>root = JObj [], definitions = JObj [], visited = {}, anchors = []\<rparr>)"
  using C6_first_branch_only [of
      "JObj [(''title'', JStr ''t''), (''properties'', JObj [(''x'', JObj [])]),
            (''anyOf'', JArr [JObj [(''type'', JStr ''string'')], JObj [(''type'', JStr ''number'')]])]"
      "JObj [(''type'', JStr ''string'')]" "[JObj [(''type'', JStr ''number'')]]" "Suc 0"
      "\<lparr>root = JObj [], definitions = JObj [], visited = {}, anchors = []\<rparr>"]
  by simp

text \<open>
  C7, as stated, fails: with \<open>enum\<close> on the schema the pointer \<open>/a\<close> is rejected, and
  with \<open>anyOf\<close> the pointer \<open>/b\<close> is accepted through the first branch.
\<close>

theorem C7_closed_object_counterexample:
  "validateJSONPointer (Suc 0) (\<lambda>p t. None) ''/a''
     (JObj [(''additionalProperties'', JBool False), (''properties'', JObj [(''a'', JObj [])]),
            (''enum'', JArr [JObj [(''a'', JNum 1)]])])
     = Some False \<and>
   validateJSONPointer (Suc (Suc 0)) (\<lambda>p t. None) ''/b''
     (JObj [(''additionalProperties'', JBool False), (''properties'', JObj [(''a'', JObj [])]),
            (''anyOf'', JArr [JObj [(''type'', JStr ''object'')]])])
     = Some True"
  by code_simp

text \<open>
  C7 (amended). For every schema object with \<open>additionalProperties: false\<close>, with
  \<open>properties\<close> holding exactly the key \<open>a\<close>, with no \<open>patternProperties\<close> and
  \<open>propertyNames\<close>, and with no \<open>const\<close>, \<open>enum\<close>, \<open>$ref\<close>, \<open>$dynamicRef\<close>, \<open>allOf\<close>,
  \<open>anyOf\<close>, \<open>oneOf\<close> or \<open>if\<close>, the pointer \<open>/a\<close> is valid and the pointer \<open>/b\<close> is
  not, whatever \<open>type\<close>, \<open>not\<close> and \<open>dependentSchemas\<close> the schema declares.
\<close>

theorem C7_closed_object:
  assumes distinct: "distinct (map fst (entries schema))"
    and plain: "plain_schema schema"
    and closed: "get schema ''additionalProperties'' = JBool False"
    and props: "get schema ''properties'' = JObj [(''a'', sa)]"
    and sa: "truthy sa"
    and no_patterns: "\<not> truthy (get schema ''patternProperties'')"
    and no_names: "\<not> truthy (get schema ''propertyNames'')"
  shows "validateJSONPointer (Suc n) rx ''/a'' schema = Some True \<and>
         validateJSONPointer (Suc n) rx ''/b'' schema = Some False"
proof -
  have "parseInt ''properties'' = None"
    by (simp add: parseInt_def is_space_def is_digit_def)
  then obtain kvs where obj: "schema = JObj kvs"
    using get_defined_object [of schema "''properties''"] props by auto
  have d: "distinct (map fst kvs)"
    using distinct obj by simp
  define kvs' where
    "kvs' = (if truthy (get schema ''not'') then AList.update ''not'' JUndefined kvs else kvs)"
  have resolved: "resolveSchema (Suc n) schema ctx = Some (JObj kvs', ctx)" for ctx
    using resolveSchema_plain [OF plain, of n ctx] d
    by (simp add: kvs'_def obj spread1_object del: resolveSchema.simps get.simps)
  have d': "distinct (map fst kvs')"
    using d by (simp add: kvs'_def distinct_update)
  have keep: "get (JObj kvs') k = get schema k" if "k \<noteq> ''not''" for k
    using that by (simp add: kvs'_def obj get_update del: get.simps)
  have open_root: "get (JObj kvs') ''const'' = JUndefined" "get (JObj kvs') ''enum'' = JUndefined"
    using plain by (simp_all add: keep plain_schema_def del: get.simps)
  have props': "get (JObj kvs') ''properties'' = JObj [(''a'', sa)]"
    using props by (simp add: keep del: get.simps)
  have tokens: "map unescape (split_on (CHR ''/'') (slice_from ''/a'' 1)) = [''a'']"
    "map unescape (split_on (CHR ''/'') (slice_from ''/b'' 1)) = [''b'']"
    by (simp_all add: slice_from_def slice_pos_def unescape_def)
  have ga: "get (JObj [(''a'', sa)]) ''a'' = sa"
    by simp
  have "tryObjectTraversal (Suc n) rx ''a'' (JObj kvs') ctx = Some (sa, ctx)" for ctx
    using props' by (simp add: tryObjectTraversal_def ga del: get.simps)
  then have a: "getNextSchema (Suc n) rx ''a'' (JObj kvs') ctx = Some (sa, ctx)" for ctx
    using props' sa
    by (subst getNextSchema.simps) (simp add: Let_def del: get.simps)
  have b: "getNextSchema (Suc n) rx ''b'' (JObj kvs') ctx = Some (JNull, ctx)" for ctx
  proof (rule closed_object_rejects_b [OF d'])
    show "get (JObj kvs') ''additionalProperties'' = JBool False"
      using closed by (simp add: keep del: get.simps)
    show "get (JObj kvs') ''properties'' = JObj [(''a'', sa)]"
      by (rule props')
    show "\<not> truthy (get (JObj kvs') ''patternProperties'')"
      using no_patterns by (simp add: keep del: get.simps)
    show "\<not> truthy (get (JObj kvs') ''propertyNames'')"
      using no_names by (simp add: keep del: get.simps)
  qed
  have va: "validateTokens (Suc n) rx [''a''] schema ctx = Some True" for ctx
    using resolved open_root a sa
    by (simp del: resolveSchema.simps get.simps)
  have vb: "validateTokens (Suc n) rx [''b''] schema ctx = Some False" for ctx
    using resolved open_root b
    by (simp del: resolveSchema.simps get.simps)
  show ?thesis
    by (simp add: validateJSONPointer_def startsWith_def tokens va vb Let_def
          del: validateTokens.simps)
qed

theorem C7_closed_object_witness:
  "validateJSONPointer (Suc 0) (\<lambda>p t. None) ''/a''
     (JObj [(''type'', JArr [JStr ''object'', JStr ''null'']), (''additionalProperties'', JBool False),
            (''properties'', JObj [(''a'', JObj [(''type'', JStr ''string'')])]),
            (''not'', JObj [(''required'', JArr [JStr ''c''])])])
     = Some True \<and>
   validateJSONPointer (Suc 0) (\<lambda>p t. None) ''/b''
     (JObj [(''type'', JArr [JStr ''object'', JStr ''null'']), (''additionalProperties'', JBool False),
            (''properties'', JObj [(''a'', JObj [(''type'', JStr ''string'')])]),
            (''not'', JObj [(''required'', JArr [JStr ''c''])])])
     = Some False"
  using C7_closed_object [of
      "JObj [(''type'', JArr [JStr ''object'', JStr ''null'']), (''additionalProperties'', JBool False),
            (''properties'', JObj [(''a'', JObj [(''type'', JStr ''string'')])]),
            (''not'', JObj [(''required'', JArr [JStr ''c''])])]"
      "JObj [(''type'', JStr ''string'')]" 0 "\<lambda>p t. None"]
  by (simp add: plain_schema_def del: validateTokens.simps)

text \<open>
  C8, as stated, fails for array schemas that carry a keyword the claim does not mention.
  With \<open>properties\<close> beside \<open>type: "array"\<close>, or with no \<open>type\<close> at all, the object
  dispatch comes first and answers \<open>{}\<close> for every token: index \<open>N\<close> is accepted although
  \<open>items: false\<close> is declared, and index \<open>N - 1\<close> yields \<open>{}\<close>, not the positional schema.
  With \<open>enum\<close> on the schema every index is rejected.
\<close>

theorem C8_array_keywords_counterexample:
  "validateJSONPointer (Suc 0) (\<lambda>p t. None) ''/2''
     (JObj [(''type'', JStr ''array''), (''properties'', JObj [(''x'', JObj [])]),
            (''prefixItems'', JArr [JObj [(''type'', JStr ''string'')], JObj [(''type'', JStr ''number'')]]),
            (''items'', JBool False)])
     = Some True \<and>
   getNextSchema 0 (\<lambda>p t. None) ''1''
     (JObj [(''type'', JStr ''array''), (''properties'', JObj [(''x'', JObj [])]),
            (''prefixItems'', JArr [JObj [(''type'', JStr ''string'')], JObj [(''type'', JStr ''number'')]])])
     \<lparr>root = JObj [], definitions = JObj [], visited = {}, anchors = []\<rparr>
     = Some (JObj [], \<lparr>root = JObj [], definitions = JObj [], visited = {}, anchors = []\<rparr>) \<and>
   validateJSONPointer (Suc 0) (\<lambda>p t. None) ''/2''
     (JObj [(''prefixItems'', JArr [JObj [(''type'', JStr ''string'')], JObj [(''type'', JStr ''number'')]]),
            (''items'', JBool False)])
     = Some True \<and>
   validateJSONPointer (Suc 0) (\<lambda>p t. None) ''/1''
     (JObj [(''type'', JStr ''array''),
            (''prefixItems'', JArr [JObj [(''type'', JStr ''string'')], JObj [(''type'', JStr ''number'')]]),
            (''enum'', JArr [JArr []])])
     = Some False"
  by code_simp

text \<open>
  C8 (amended). For every schema object of type \<open>"array"\<close> with \<open>prefixItems\<close> of length
  \<open>N\<close>, with no \<open>properties\<close> and \<open>patternProperties\<close>, no \<open>const\<close> and \<open>enum\<close>, and
  no \<open>$ref\<close>, \<open>$dynamicRef\<close>, \<open>allOf\<close>, \<open>anyOf\<close>, \<open>oneOf\<close> or \<open>if\<close>: with no \<open>items\<close>
  and no \<open>maxItems\<close>, the pointer of index \<open>N - 1\<close> is valid and the step yields the
  positional schema (for \<open>N > 0\<close>, the positional schema being a schema), and the pointer
  of index \<open>N\<close> is valid and the step yields the fallback \<open>{}\<close>; with \<open>items: false\<close> the
  pointer of index \<open>N\<close> is not valid.
\<close>

theorem C8_prefixItems_indices:
  assumes distinct: "distinct (map fst (entries schema))"
    and plain: "plain_schema schema"
    and array: "get schema ''type'' = JStr ''array''"
    and no_props: "\<not> truthy (get schema ''properties'')"
    and no_patterns: "\<not> truthy (get schema ''patternProperties'')"
    and prefix: "get schema ''prefixItems'' = JArr ps"
  shows "(get schema ''items'' = JUndefined \<and> get schema ''maxItems'' = JUndefined \<longrightarrow>
            (0 < length ps \<and> truthy (ps ! (length ps - 1)) \<longrightarrow>
               validateJSONPointer (Suc n) rx (CHR ''/'' # toString (int (length ps - 1))) schema
                 = Some True \<and>
               getNextSchema n rx (toString (int (length ps - 1))) schema ctx
                 = Some (ps ! (length ps - 1), ctx)) \<and>
            validateJSONPointer (Suc n) rx (CHR ''/'' # toString (int (length ps))) schema = Some True \<and>
            getNextSchema n rx (toString (int (length ps))) schema ctx = Some (JObj [], ctx)) \<and>
         (get schema ''items'' = JBool False \<longrightarrow>
            validateJSONPointer (Suc n) rx (CHR ''/'' # toString (int (length ps))) schema = Some False \<and>
            getNextSchema n rx (toString (int (length ps))) schema ctx = Some (JNull, ctx))"
proof -
  have "parseInt ''prefixItems'' = None"
    by (simp add: parseInt_def is_space_def is_digit_def)
  then obtain kvs where obj: "schema = JObj kvs"
    using get_defined_object [of schema "''prefixItems''"] prefix by auto
  have d: "distinct (map fst kvs)"
    using distinct obj by simp
  have pointer: "validateJSONPointer (Suc n) rx (CHR ''/'' # toString (int i)) schema =
      Some (truthy (tryArrayTraversal (toString (int i)) schema))" for i
    using index_step_of_plain_array_schema [OF d plain [unfolded obj] array [unfolded obj]
        no_props [unfolded obj] no_patterns [unfolded obj], of n rx i]
    by (simp only: obj)
  have step: "getNextSchema n rx (toString (int i)) schema ctx =
      Some (if truthy (tryArrayTraversal (toString (int i)) schema)
            then tryArrayTraversal (toString (int i)) schema else JNull, ctx)" for i
    by (rule getNextSchema_array_only [OF array no_props no_patterns])
  have last: "tryArrayTraversal (toString (int (length ps - 1))) schema = ps ! (length ps - 1)"
    if "get schema ''items'' = JUndefined" "get schema ''maxItems'' = JUndefined" "0 < length ps"
    using that prefix
    by (simp add: tryArrayTraversal_index get_array_length get_array_nth del: get.simps)
  have over: "tryArrayTraversal (toString (int (length ps))) schema = JObj []"
    if "get schema ''items'' = JUndefined" "get schema ''maxItems'' = JUndefined"
    using that prefix by (simp add: tryArrayTraversal_index get_array_length del: get.simps)
  have closed: "tryArrayTraversal (toString (int (length ps))) schema = JNull"
    if "get schema ''items'' = JBool False"
    using that prefix by (simp add: tryArrayTraversal_index get_array_length del: get.simps)
  show ?thesis
  proof (intro conjI impI)
    assume a: "get schema ''items'' = JUndefined \<and> get schema ''maxItems'' = JUndefined"
    then have o: "tryArrayTraversal (toString (int (length ps))) schema = JObj []"
      by (simp add: over)
    show "validateJSONPointer (Suc n) rx (CHR ''/'' # toString (int (length ps))) schema = Some True"
      unfolding pointer o by simp
    show "getNextSchema n rx (toString (int (length ps))) schema ctx = Some (JObj [], ctx)"
      unfolding step o by simp
    assume b: "0 < length ps \<and> truthy (ps ! (length ps - 1))"
    have l: "tryArrayTraversal (toString (int (length ps - 1))) schema = ps ! (length ps - 1)"
      by (rule last) (use a b in simp_all)
    show "validateJSONPointer (Suc n) rx (CHR ''/'' # toString (int (length ps - 1))) schema = Some True"
      unfolding pointer l using b by simp
    show "getNextSchema n rx (toString (int (length ps - 1))) schema ctx = Some (ps ! (length ps - 1), ctx)"
      unfolding step l using b by simp
  next
    assume "get schema ''items'' = JBool False"
    then have c: "tryArrayTraversal (toString (int (length ps))) schema = JNull"
      by (rule closed)
    show "validateJSONPointer (Suc n) rx (CHR ''/'' # toString (int (length ps))) schema = Some False"
      unfolding pointer c by simp
    show "getNextSchema n rx (toString (int (length ps))) schema ctx = Some (JNull, ctx)"
      unfolding step c by simp
  qed
qed

theorem C8_prefixItems_indices_witness:
  "validateJSONPointer (Suc 0) (\<lambda>p t. None) ''/1''
     (JObj [(''type'', JStr ''array''),
            (''prefixItems'', JArr [JObj [(''type'', JStr ''string'')], JObj [(''type'', JStr ''number'')]])])
     = Some True \<and>
   validateJSONPointer (Suc 0) (\<lambda>p t. None) ''/2''
     (JObj [(''type'', JStr ''array''),
            (''prefixItems'', JArr [JObj [(''type'', JStr ''string'')], JObj [(''type'', JStr ''number'')]])])
     = Some True \<and>
   validateJSONPointer (Suc 0) (\<lambda>p t. None) ''/2''
     (JObj [(''type'', JStr ''array''),
            (''prefixItems'', JArr [JObj [(''type'', JStr ''string'')], JObj [(''type'', JStr ''number'')]]),
            (''items'', JBool False)])
     = Some False"
proof -
  have t1: "toString (int (length [JObj [(''type'', JStr ''string'')], JObj [(''type'', JStr ''number'')]] - 1)) = ''1''"
    by (simp add: toString_def digits.simps digit_char_def)
  have t2: "toString (int (length [JObj [(''type'', JStr ''string'')], JObj [(''type'', JStr ''number'')]])) = ''2''"
    by (simp add: toString_def digits.simps digit_char_def)
  show ?thesis
    using C8_prefixItems_indices [of
      "JObj [(''type'', JStr ''array''),
            (''prefixItems'', JArr [JObj [(''type'', JStr ''string'')], JObj [(''type'', JStr ''number'')]])]"
      "[JObj [(''type'', JStr ''string'')], JObj [(''type'', JStr ''number'')]]"
      0 "\<lambda>p t. None" "\<lparr>root = JObj [], definitions = JObj [], visited = {}, anchors = []\<rparr>"]
      C8_prefixItems_indices [of
      "JObj [(''type'', JStr ''array''),
            (''prefixItems'', JArr [JObj [(''type'', JStr ''string'')], JObj [(''type'', JStr ''number'')]]),
            (''items'', JBool False)]"
      "[JObj [(''type'', JStr ''string'')], JObj [(''type'', JStr ''number'')]]"
      0 "\<lambda>p t. None" "\<lparr>root = JObj [], definitions = JObj [], visited = {}, anchors = []\<rparr>"]
    unfolding t1 t2 by (simp add: plain_schema_def)
qed

text \<open>
  C9, as stated, fails on the number of errors: an operation can report more than one. In
  the batch below operation 0, a \<open>move\<close> without \<open>from\<close> and \<open>path\<close>, reports two
  errors, operation 1 none and operation 2 one: three errors, not two.
\<close>

theorem C9_exactly_two_errors_counterexample:
  "validateJSONPatch (Suc 0) (\<lambda>p t. None) (JArr [JObj [(''op'', JStr ''move'')]]) (JObj [])
     = Some \<lparr>valid = False,
              errors = [\<lparr>operation = 0,
                         error = ''Move operation must have a '' @ quoted ''from'' @ '' property''\<rparr>,
                        \<lparr>operation = 0,
                         error = ''Move operation must have a '' @ quoted ''path'' @ '' property''\<rparr>]\<rparr> \<and>
   validateJSONPatch (Suc 0) (\<lambda>p t. None)
     (JArr [JObj [(''op'', JStr ''add''), (''path'', JStr ''/x''), (''value'', JNum 1)]]) (JObj [])
     = Some \<lparr>valid = True, errors = []\<rparr> \<and>
   validateJSONPatch (Suc 0) (\<lambda>p t. None) (JArr [JObj [(''op'', JStr ''test'')]]) (JObj [])
     = Some \<lparr>valid = False,
              errors = [\<lparr>operation = 0,
                         error = ''Test operation must have a '' @ quoted ''path'' @ '' property''\<rparr>]\<rparr> \<and>
   validateJSONPatch (Suc 0) (\<lambda>p t. None)
     (JArr [JObj [(''op'', JStr ''move'')],
            JObj [(''op'', JStr ''add''), (''path'', JStr ''/x''), (''value'', JNum 1)],
            JObj [(''op'', JStr ''test'')]]) (JObj [])
     = Some \<lparr>valid = False,
              errors = [\<lparr>operation = 0,
                         error = ''Move operation must have a '' @ quoted ''from'' @ '' property''\<rparr>,
                        \<lparr>operation = 0,
                         error = ''Move operation must have a '' @ quoted ''path'' @ '' property''\<rparr>,
                        \<lparr>operation = 2,
                         error = ''Test operation must have a '' @ quoted ''path'' @ '' property''\<rparr>]\<rparr>"
  by (simp add: patch_defs pointer_defs parseInt_def is_space_def is_digit_def)

text \<open>
  C9 (amended). An input that is not an array yields the single error with index \<open>-1\<close>.
  For an array, the errors are those of the operations, concatenated in the order of the
  operations, every error carrying the index of its operation, and the result is valid
  exactly when there is none; the batch has a result when every operation has one, and
  only then. A batch of three operations of which the first and the last
  report errors and the second none yields the errors of the first followed by those of
  the last, tagged \<open>0\<close> and \<open>2\<close>, at least two of them and exactly two when each of the
  two operations reports one, and is not valid.
\<close>

theorem C9_batch_accumulation:
  "(\<not> isArray patch \<longrightarrow>
      validateJSONPatch n rx patch schema
        = Some \<lparr>valid = False,
                 errors = [\<lparr>operation = - 1, error = ''Patch must be an array''\<rparr>]\<rparr>) \<and>
   ((\<forall>k < length ops. validateOperation n rx (ops ! k) schema (int k) = Some (es k)) \<longrightarrow>
      validateJSONPatch n rx (JArr ops) schema
        = Some \<lparr>valid = (concat (map es [0..<length ops]) = []),
                 errors = concat (map es [0..<length ops])\<rparr> \<and>
      (\<forall>k < length ops. \<forall>e \<in> set (es k). operation e = int k)) \<and>
   (validateJSONPatch n rx (JArr ops) schema = Some r \<longrightarrow>
      (\<exists>es. (\<forall>k < length ops. validateOperation n rx (ops ! k) schema (int k) = Some (es k)) \<and>
            errors r = concat (map es [0..<length ops]) \<and> valid r = (errors r = []))) \<and>
   (validateOperation n rx o0 schema 0 = Some e0 \<and> validateOperation n rx o1 schema 1 = Some [] \<and>
    validateOperation n rx o2 schema 2 = Some e2 \<and> e0 \<noteq> [] \<and> e2 \<noteq> [] \<longrightarrow>
      validateJSONPatch n rx (JArr [o0, o1, o2]) schema = Some \<lparr>valid = False, errors = e0 @ e2\<rparr> \<and>
      (\<forall>e \<in> set e0. operation e = 0) \<and> (\<forall>e \<in> set e2. operation e = 2) \<and>
      2 \<le> length (e0 @ e2) \<and>
      (length e0 = 1 \<and> length e2 = 1 \<longrightarrow> length (e0 @ e2) = 2))"
proof (intro conjI impI)
  assume "\<not> isArray patch"
  then show "validateJSONPatch n rx patch schema
        = Some \<lparr>valid = False,
                 errors = [\<lparr>operation = - 1, error = ''Patch must be an array''\<rparr>]\<rparr>"
    by (simp add: validateJSONPatch_def)
next
  assume each: "\<forall>k < length ops. validateOperation n rx (ops ! k) schema (int k) = Some (es k)"
  then show "validateJSONPatch n rx (JArr ops) schema
        = Some \<lparr>valid = (concat (map es [0..<length ops]) = []),
                 errors = concat (map es [0..<length ops])\<rparr>"
    by (rule validateJSONPatch_accumulates)
  show "\<forall>k < length ops. \<forall>e \<in> set (es k). operation e = int k"
    using each validateOperation_tagged by blast
next
  assume "validateJSONPatch n rx (JArr ops) schema = Some r"
  then show "\<exists>es. (\<forall>k < length ops. validateOperation n rx (ops ! k) schema (int k) = Some (es k)) \<and>
            errors r = concat (map es [0..<length ops]) \<and> valid r = (errors r = [])"
    by (rule validateJSONPatch_inv)
next
  assume three: "validateOperation n rx o0 schema 0 = Some e0 \<and>
    validateOperation n rx o1 schema 1 = Some [] \<and>
    validateOperation n rx o2 schema 2 = Some e2 \<and> e0 \<noteq> [] \<and> e2 \<noteq> []"
  define es where "es = (\<lambda>k::nat. if k = 0 then e0 else if k = 1 then [] else e2)"
  have "\<forall>k < length [o0, o1, o2]. validateOperation n rx ([o0, o1, o2] ! k) schema (int k) = Some (es k)"
  proof (intro allI impI)
    fix k assume "k < length [o0, o1, o2]"
    then have "k = 0 \<or> k = 1 \<or> k = 2" by auto
    then show "validateOperation n rx ([o0, o1, o2] ! k) schema (int k) = Some (es k)"
      using three by (auto simp: es_def)
  qed
  from validateJSONPatch_accumulates [OF this]
  have "validateJSONPatch n rx (JArr [o0, o1, o2]) schema
          = Some \<lparr>valid = (concat (map es [0, Suc 0, Suc (Suc 0)]) = []),
                   errors = concat (map es [0, Suc 0, Suc (Suc 0)])\<rparr>"
    by (simp add: upt_rec)
  then show "validateJSONPatch n rx (JArr [o0, o1, o2]) schema = Some \<lparr>valid = False, errors = e0 @ e2\<rparr>"
    using three by (simp add: es_def)
  show "\<forall>e \<in> set e0. operation e = 0"
    using three validateOperation_tagged by blast
  show "\<forall>e \<in> set e2. operation e = 2"
    using three validateOperation_tagged by blast
  show "2 \<le> length (e0 @ e2)"
    using three by (cases e0; cases e2) auto
  assume "length e0 = 1 \<and> length e2 = 1"
  then show "length (e0 @ e2) = 2" by simp
qed

theorem C9_batch_accumulation_witness:
  "validateJSONPatch (Suc 0) (\<lambda>p t. None) (JObj []) (JObj [])
     = Some \<lparr>valid = False,
              errors = [\<lparr>operation = - 1, error = ''Patch must be an array''\<rparr>]\<rparr> \<and>
   validateJSONPatch (Suc 0) (\<lambda>p t. None)
     (JArr [JObj [(''op'', JStr ''remove'')],
            JObj [(''op'', JStr ''add''), (''path'', JStr ''/x''), (''value'', JNum 1)],
            JObj [(''op'', JStr ''test'')]]) (JObj [])
     = Some \<lparr>valid = False,
              errors = [\<lparr>operation = 0,
                         error = ''Remove operation must have a '' @ quoted ''path'' @ '' property''\<rparr>] @
                       [\<lparr>operation = 2,
                         error = ''Test operation must have a '' @ quoted ''path'' @ '' property''\<rparr>]\<rparr>"
proof -
  have h0: "validateOperation (Suc 0) (\<lambda>p t. None) (JObj [(''op'', JStr ''remove'')]) (JObj []) 0
      = Some [\<lparr>operation = 0,
                error = ''Remove operation must have a '' @ quoted ''path'' @ '' property''\<rparr>]"
    by (simp add: validateOperation_def validOps_def validateRemove_def)
  have h1: "validateOperation (Suc 0) (\<lambda>p t. None)
      (JObj [(''op'', JStr ''add''), (''path'', JStr ''/x''), (''value'', JNum 1)]) (JObj []) 1 = Some []"
    by (simp add: patch_defs pointer_defs parseInt_def is_space_def is_digit_def)
  have h2: "validateOperation (Suc 0) (\<lambda>p t. None) (JObj [(''op'', JStr ''test'')]) (JObj []) 2
      = Some [\<lparr>operation = 2,
                error = ''Test operation must have a '' @ quoted ''path'' @ '' property''\<rparr>]"
    by (simp add: validateOperation_def validOps_def validateTest_def)
  show ?thesis
    using C9_batch_accumulation [of "JObj []" "Suc 0" "\<lambda>p t. None" "JObj []" "[]" "\<lambda>k. []"
        "\<lparr>valid = True, errors = []\<rparr>"
        "JObj [(''op'', JStr ''remove'')]"
        "[\<lparr>operation = 0,
                error = ''Remove operation must have a '' @ quoted ''path'' @ '' property''\<rparr>]"
        "JObj [(''op'', JStr ''add''), (''path'', JStr ''/x''), (''value'', JNum 1)]"
        "JObj [(''op'', JStr ''test'')]"
        "[\<lparr>operation = 2,
                error = ''Test operation must have a '' @ quoted ''path'' @ '' property''\<rparr>]"]
      h0 h1 h2
    by simp
qed

text \<open>
  C10. An operation with a known \<open>op\<close> whose \<open>path\<close> is the empty string is reported as
  lacking a \<open>path\<close> property: alone it makes the batch invalid, with the message that the
  operation must have a "path" property among the errors, and in any batch the result
  is invalid and holds that message with the index of the operation. This is so although
  the empty pointer is a valid pointer for every schema.
\<close>

theorem C10_empty_path_rejected:
  assumes "get oper ''op'' = JStr opname" and "opname \<in> set validOps"
    and "get oper ''path'' = JStr ''''"
  shows "(\<exists>errs. validateJSONPatch n rx (JArr [oper]) schema = Some \<lparr>valid = False, errors = errs\<rparr> \<and>
            \<lparr>operation = 0,
              error = op_title opname @ '' operation must have a '' @ quoted ''path'' @ '' property''\<rparr>
              \<in> set errs) \<and>
         (\<forall>ops k r. k < length ops \<and> ops ! k = oper \<and>
            validateJSONPatch n rx (JArr ops) schema = Some r \<longrightarrow>
            \<not> valid r \<and>
            \<lparr>operation = int k,
              error = op_title opname @ '' operation must have a '' @ quoted ''path'' @ '' property''\<rparr>
              \<in> set (errors r)) \<and>
         validateJSONPointer n rx '''' schema = Some True"
proof (intro conjI allI impI)
  obtain errs where e: "validateOperation n rx oper schema 0 = Some errs"
    and m: "\<lparr>operation = 0,
              error = op_title opname @ '' operation must have a '' @ quoted ''path'' @ '' property''\<rparr>
              \<in> set errs"
    using validateOperation_empty_path [OF assms, of n rx schema 0] by blast
  from m have "errs \<noteq> []" by auto
  then have "validateJSONPatch n rx (JArr [oper]) schema = Some \<lparr>valid = False, errors = errs\<rparr>"
    using e by (simp add: validateJSONPatch_def)
  then show "\<exists>errs. validateJSONPatch n rx (JArr [oper]) schema = Some \<lparr>valid = False, errors = errs\<rparr> \<and>
            \<lparr>operation = 0,
              error = op_title opname @ '' operation must have a '' @ quoted ''path'' @ '' property''\<rparr>
              \<in> set errs"
    using m by blast
next
  show "validateJSONPointer n rx '''' schema = Some True"
    by (simp add: validateJSONPointer_def)
next
  fix ops k r
  assume a: "k < length ops \<and> ops ! k = oper \<and> validateJSONPatch n rx (JArr ops) schema = Some r"
  then obtain es where es: "\<forall>j < length ops. validateOperation n rx (ops ! j) schema (int j) = Some (es j)"
    and errs: "errors r = concat (map es [0..<length ops])" and v: "valid r = (errors r = [])"
    using validateJSONPatch_inv by blast
  obtain errs' where e: "validateOperation n rx oper schema (int k) = Some errs'"
    and m: "\<lparr>operation = int k,
              error = op_title opname @ '' operation must have a '' @ quoted ''path'' @ '' property''\<rparr>
              \<in> set errs'"
    using validateOperation_empty_path [OF assms, of n rx schema "int k"] by blast
  have "es k = errs'"
    using es a e by auto
  then have "\<lparr>operation = int k,
              error = op_title opname @ '' operation must have a '' @ quoted ''path'' @ '' property''\<rparr>
              \<in> set (errors r)"
    using m a errs by auto
  then show "\<not> valid r"
    and "\<lparr>operation = int k,
              error = op_title opname @ '' operation must have a '' @ quoted ''path'' @ '' property''\<rparr>
              \<in> set (errors r)"
    using v by auto
qed

theorem C10_empty_path_rejected_witness:
  "(\<exists>errs. validateJSONPatch 0 (\<lambda>p t. None)
              (JArr [JObj [(''op'', JStr ''remove''), (''path'', JStr '''')]]) (JObj [])
            = Some \<lparr>valid = False, errors = errs\<rparr> \<and>
            \<lparr>operation = 0,
              error = ''Remove operation must have a '' @ quoted ''path'' @ '' property''\<rparr>
              \<in> set errs) \<and>
   validateJSONPointer 0 (\<lambda>p t. None) '''' (JObj []) = Some True"
  using C10_empty_path_rejected [of "JObj [(''op'', JStr ''remove''), (''path'', JStr '''')]"
      "''remove''" 0 "\<lambda>p t. None" "JObj []"]
  by (simp add: validOps_def op_title_def)

end
